theory Spec2Isabelle
  imports Main
begin

section \<open>The integrations table (src/database.js)\<close>

text \<open>
  One row of the table \<^verbatim>\<open>integrations\<close>. Timestamps are stored as ISO strings produced
  by \<^verbatim>\<open>toISOString()\<close>; a stored timestamp is modelled by its value in milliseconds
  since the epoch, and SQL NULL by \<open>None\<close>. \<open>row_id\<close> is the column \<^verbatim>\<open>id\<close>
  (INTEGER PRIMARY KEY AUTOINCREMENT).
\<close>

record integration =
  row_id :: nat
  project_id :: string
  account_name :: string
  account_email :: string
  jira_domain :: string
  access_token :: string
  refresh_token :: "string option"
  expires_at :: "int option"
  last_refresh_at :: "int option"
  refresh_failures :: nat
  is_active :: bool
  is_primary :: bool

text \<open>
  The request body that \<^verbatim>\<open>refreshAccessToken\<close> posts to the token endpoint, and what
  the endpoint may answer: a transport failure (\<^verbatim>\<open>fetch\<close> rejects), a response with
  \<^verbatim>\<open>response.ok\<close> false (status and body text), or a token document.
\<close>

record refresh_request =
  grant_type :: string
  client_id :: string
  client_secret :: string
  req_refresh_token :: string

record token_data =
  td_access_token :: string
  td_refresh_token :: "string option"
  td_expires_in :: int

datatype token_response =
    Unreachable string
  | Rejected nat string
  | Granted token_data

text \<open>
  The store as the auth service sees it: the rows in rowid order, the AUTOINCREMENT
  high-water mark, and the log of requests that reached the token endpoint.
\<close>

record world =
  integrations :: "integration list"
  seq :: nat
  token_calls :: "refresh_request list"

datatype error =
    IntegrationNotFound
  | NoRefreshToken
  | TokenRefreshFailed nat string
  | FetchFailed string
  | JiraApiError nat string
  | SqliteError string

record tokens =
  accessToken :: string
  refreshToken :: "string option"
  expiresAt :: int

record auth_config =
  clientId :: string
  clientSecret :: string

text \<open>JavaScript truthiness of a nullable string: \<^verbatim>\<open>null\<close> and \<^verbatim>\<open>''\<close> are falsy.\<close>

fun falsy :: "string option \<Rightarrow> bool" where
  "falsy None = True"
| "falsy (Some s) = (s = [])"

text \<open>\<^verbatim>\<open>a || b\<close> on nullable strings.\<close>

definition or_else :: "string option \<Rightarrow> string option \<Rightarrow> string option" where
  "or_else a b = (if falsy a then b else a)"

section \<open>JiraAuthService (src/auth-service.js)\<close>

text \<open>\<^verbatim>\<open>needsRefresh(integration)\<close>, lines 279-287; \<open>now\<close> is \<^verbatim>\<open>new Date()\<close>.\<close>

definition bufferTime :: int where
  "bufferTime = 5 * 60 * 1000"

definition needsRefresh :: "int \<Rightarrow> integration \<Rightarrow> bool" where
  "needsRefresh now integ =
     (case expires_at integ of
        None \<Rightarrow> True
      | Some expires \<Rightarrow> expires \<le> now + bufferTime)"

text \<open>\<^verbatim>\<open>UPDATE integrations SET ... WHERE id = ?\<close>: every row with that id is rewritten.\<close>

definition update_where_id ::
  "nat \<Rightarrow> (integration \<Rightarrow> integration) \<Rightarrow> world \<Rightarrow> world" where
  "update_where_id i f w =
     w\<lparr>integrations := map (\<lambda>r. if row_id r = i then f r else r) (integrations w)\<rparr>"

text \<open>\<^verbatim>\<open>SELECT * FROM integrations WHERE id = ? AND is_active = 1\<close> through \<^verbatim>\<open>db.get\<close>.\<close>

definition get_active :: "nat \<Rightarrow> world \<Rightarrow> integration option" where
  "get_active i w = find (\<lambda>r. row_id r = i \<and> is_active r) (integrations w)"

text \<open>\<^verbatim>\<open>SELECT * FROM integrations WHERE id = ?\<close> through \<^verbatim>\<open>db.get\<close>.\<close>

definition get_by_id :: "nat \<Rightarrow> world \<Rightarrow> integration option" where
  "get_by_id i w = find (\<lambda>r. row_id r = i) (integrations w)"

text \<open>The object \<^verbatim>\<open>refreshRequest\<close> built at lines 213-218.\<close>

definition refreshRequest :: "auth_config \<Rightarrow> integration \<Rightarrow> refresh_request" where
  "refreshRequest cfg integ =
     \<lparr>grant_type = ''refresh_token'', client_id = clientId cfg,
      client_secret = clientSecret cfg,
      req_refresh_token = the (refresh_token integ)\<rparr>"

text \<open>
  \<^verbatim>\<open>refreshAccessToken(integrationId)\<close>, lines 195-264. A throw leaves the store as it is
  at that point, so the result pairs the outcome with the world. The clock is read as
  one instant \<open>now\<close> within the call. \<open>the\<close> is applied to the refresh token only
  after the falsy test has excluded NULL.
\<close>

definition refreshAccessToken ::
  "auth_config \<Rightarrow> (refresh_request \<Rightarrow> token_response) \<Rightarrow> int \<Rightarrow> nat \<Rightarrow> world
     \<Rightarrow> (error + tokens) \<times> world" where
  "refreshAccessToken cfg endpoint now integrationId w =
     (case get_active integrationId w of
        None \<Rightarrow> (Inl IntegrationNotFound, w)
      | Some integ \<Rightarrow>
          if falsy (refresh_token integ) then (Inl NoRefreshToken, w)
          else
            let w1 = w\<lparr>token_calls := token_calls w @ [refreshRequest cfg integ]\<rparr>
            in (case endpoint (refreshRequest cfg integ) of
                  Unreachable msg \<Rightarrow> (Inl (FetchFailed msg), w1)
                | Rejected status errorText \<Rightarrow>
                    (Inl (TokenRefreshFailed status errorText),
                     update_where_id integrationId
                       (\<lambda>r. r\<lparr>refresh_failures := refresh_failures r + 1\<rparr>) w1)
                | Granted tokenData \<Rightarrow>
                    let kept = or_else (td_refresh_token tokenData) (refresh_token integ);
                        expiry = now + td_expires_in tokenData * 1000
                    in (Inr \<lparr>accessToken = td_access_token tokenData, refreshToken = kept,
                             expiresAt = expiry\<rparr>,
                        update_where_id integrationId
                          (\<lambda>r. r\<lparr>access_token := td_access_token tokenData,
                                 refresh_token := kept,
                                 expires_at := Some expiry,
                                 last_refresh_at := Some now,
                                 refresh_failures := 0\<rparr>) w1)))"






section \<open>Account routes (src/web-server.js)\<close>




text \<open>
  \<^verbatim>\<open>UPDATE integrations SET is_active = 0 WHERE id = ?\<close>: the handler of
  \<^verbatim>\<open>DELETE /api/accounts/:id\<close> (lines 649-661) and the scheduler's failure branch.
\<close>

definition deactivate :: "nat \<Rightarrow> world \<Rightarrow> world" where
  "deactivate i w = update_where_id i (\<lambda>r. r\<lparr>is_active := False\<rparr>) w"


section \<open>TokenRefreshScheduler (src/scheduler.js)\<close>

record scheduler =
  isRunning :: bool

text \<open>
  The body of the \<^verbatim>\<open>for\<close> loop of \<^verbatim>\<open>refreshAllTokens\<close>, lines 56-76, for one row
  \<open>integ\<close> of the rows read before the loop (line 51). The \<^verbatim>\<open>catch\<close> branch tests
  \<^verbatim>\<open>integration.refresh_failures\<close>, the counter of that row as it was read. The clock
  is read as one instant \<open>now\<close> within a cycle.
\<close>

definition refreshStep ::
  "auth_config \<Rightarrow> (refresh_request \<Rightarrow> token_response) \<Rightarrow> int \<Rightarrow> integration \<Rightarrow> world
     \<Rightarrow> world" where
  "refreshStep cfg endpoint now integ w =
     (if needsRefresh now integ then
        (case refreshAccessToken cfg endpoint now (row_id integ) w of
           (Inr newTokens, w') \<Rightarrow> w'
         | (Inl err, w') \<Rightarrow>
             if refresh_failures integ \<ge> 3 then deactivate (row_id integ) w' else w')
      else w)"

fun refreshLoop ::
  "auth_config \<Rightarrow> (refresh_request \<Rightarrow> token_response) \<Rightarrow> int \<Rightarrow> integration list \<Rightarrow> world
     \<Rightarrow> world" where
  "refreshLoop cfg endpoint now [] w = w"
| "refreshLoop cfg endpoint now (integ # rest) w =
     refreshLoop cfg endpoint now rest (refreshStep cfg endpoint now integ w)"

text \<open>
  \<^verbatim>\<open>refreshAllTokens()\<close>, lines 40-83, is an \<^verbatim>\<open>async\<close> function: it runs until its next
  \<^verbatim>\<open>await\<close>, and other callbacks of the process run while it waits. Its position
  between two suspensions is \<open>Start\<close> (called, nothing run yet), \<open>AwaitRows\<close> (the
  guard of lines 41-46 passed, \<^verbatim>\<open>getDatabase()\<close> and \<^verbatim>\<open>db.all\<close> of lines 50-53
  pending), \<open>Loop rows\<close> (at the head of the \<^verbatim>\<open>for\<close> loop of line 55 with \<open>rows\<close>
  still to visit) or \<open>Done\<close> (returned). The function resolves to \<^verbatim>\<open>undefined\<close> on
  every path; the outcome says which path was taken.
\<close>

datatype cycle_outcome = Skipped | CycleError error | Completed

datatype pc = Start | AwaitRows | Loop "integration list" | Done cycle_outcome

text \<open>
  One run of the function from one suspension to the next, on the scheduler object and
  the store as they are at that moment. One pass of the loop body is one step: the
  suspensions inside \<^verbatim>\<open>refreshAccessToken\<close> and \<^verbatim>\<open>db.run\<close> are not split, and
  nothing in the body reads or writes the flag. \<open>fault\<close> is \<open>Some e\<close> when
  \<^verbatim>\<open>getDatabase()\<close> or \<^verbatim>\<open>db.all\<close> rejects with \<open>e\<close>, which the outer \<^verbatim>\<open>catch\<close>
  logs. The \<^verbatim>\<open>finally\<close> block of lines 80-82 runs on every path that entered
  \<^verbatim>\<open>try\<close>; the early \<^verbatim>\<open>return\<close> of line 43 is before it.
\<close>

fun cycle_step ::
  "auth_config \<Rightarrow> (refresh_request \<Rightarrow> token_response) \<Rightarrow> int \<Rightarrow> error option
     \<Rightarrow> pc \<times> scheduler \<times> world \<Rightarrow> pc \<times> scheduler \<times> world" where
  "cycle_step cfg endpoint now fault (Start, s, w) =
     (if isRunning s then (Done Skipped, s, w)
      else (AwaitRows, s\<lparr>isRunning := True\<rparr>, w))"
| "cycle_step cfg endpoint now fault (AwaitRows, s, w) =
     (case fault of
        Some e \<Rightarrow> (Done (CycleError e), s\<lparr>isRunning := False\<rparr>, w)
      | None \<Rightarrow> (Loop (filter is_active (integrations w)), s, w))"
| "cycle_step cfg endpoint now fault (Loop [], s, w) =
     (Done Completed, s\<lparr>isRunning := False\<rparr>, w)"
| "cycle_step cfg endpoint now fault (Loop (integ # rest), s, w) =
     (Loop rest, s, refreshStep cfg endpoint now integ w)"
| "cycle_step cfg endpoint now fault (Done out, s, w) = (Done out, s, w)"

text \<open>The function run from a position to its return, nothing else running in between.\<close>

function run_cycle ::
  "auth_config \<Rightarrow> (refresh_request \<Rightarrow> token_response) \<Rightarrow> int \<Rightarrow> error option
     \<Rightarrow> pc \<times> scheduler \<times> world \<Rightarrow> cycle_outcome \<times> scheduler \<times> world" where
  "run_cycle cfg endpoint now fault (Done out, s, w) = (out, s, w)"
| "run_cycle cfg endpoint now fault (Start, s, w) =
     run_cycle cfg endpoint now fault (cycle_step cfg endpoint now fault (Start, s, w))"
| "run_cycle cfg endpoint now fault (AwaitRows, s, w) =
     run_cycle cfg endpoint now fault (cycle_step cfg endpoint now fault (AwaitRows, s, w))"
| "run_cycle cfg endpoint now fault (Loop [], s, w) =
     run_cycle cfg endpoint now fault (cycle_step cfg endpoint now fault (Loop [], s, w))"
| "run_cycle cfg endpoint now fault (Loop (integ # rest), s, w) =
     run_cycle cfg endpoint now fault
       (cycle_step cfg endpoint now fault (Loop (integ # rest), s, w))"
  by pat_completeness auto
termination
  by (relation "measure (\<lambda>(cfg, endpoint, now, fault, p, s, w).
         case p of Start \<Rightarrow> length (integrations w) + 3
                 | AwaitRows \<Rightarrow> length (integrations w) + 2
                 | Loop rows \<Rightarrow> length rows + 1
                 | Done out \<Rightarrow> 0)")
     (auto split: option.splits simp: less_Suc_eq_le)

definition refreshAllTokens ::
  "auth_config \<Rightarrow> (refresh_request \<Rightarrow> token_response) \<Rightarrow> int \<Rightarrow> error option
     \<Rightarrow> scheduler \<times> world \<Rightarrow> cycle_outcome \<times> scheduler \<times> world" where
  "refreshAllTokens cfg endpoint now fault sw =
     run_cycle cfg endpoint now fault (Start, fst sw, snd sw)"

text \<open>
  Several invocations on one scheduler object and one store. Each invocation has its
  own position; those not yet called are at \<open>Start\<close>. An event lets one invocation
  run to its next suspension, with the token endpoint, the clock and the store fault as
  they are at that moment. Any list of events is a possible interleaving.
\<close>

record event =
  ev_task :: nat
  ev_endpoint :: "refresh_request \<Rightarrow> token_response"
  ev_now :: int
  ev_fault :: "error option"

definition system_step ::
  "auth_config \<Rightarrow> event \<Rightarrow> (nat \<Rightarrow> pc) \<times> scheduler \<times> world \<Rightarrow> (nat \<Rightarrow> pc) \<times> scheduler \<times> world" where
  "system_step cfg ev st =
     (case st of (pcs, s, w) \<Rightarrow>
        (case cycle_step cfg (ev_endpoint ev) (ev_now ev) (ev_fault ev) (pcs (ev_task ev), s, w) of
           (p', s', w') \<Rightarrow> (pcs(ev_task ev := p'), s', w')))"

fun run_schedule ::
  "auth_config \<Rightarrow> event list \<Rightarrow> (nat \<Rightarrow> pc) \<times> scheduler \<times> world \<Rightarrow> (nat \<Rightarrow> pc) \<times> scheduler \<times> world" where
  "run_schedule cfg [] st = st"
| "run_schedule cfg (ev # evs) st = run_schedule cfg evs (system_step cfg ev st)"

text \<open>An invocation is inside the cycle when it has passed the guard and not yet returned.\<close>

fun in_cycle :: "pc \<Rightarrow> bool" where
  "in_cycle AwaitRows = True"
| "in_cycle (Loop rows) = True"
| "in_cycle Start = False"
| "in_cycle (Done out) = False"

section \<open>The mirrored Jira tables (src/database.js)\<close>

text \<open>
  The twenty tables that \<^verbatim>\<open>initDatabase\<close> creates besides \<^verbatim>\<open>integrations\<close>, one per
  entity type.
\<close>

datatype table =
    Projects | IssueTypes | Priorities | Statuses | Resolutions | Users | Groups | Fields
  | Labels | Components | Versions | Workflows | Dashboards | Filters | Permissions
  | Issues | Comments | Worklogs | Attachments | IssueLinks

text \<open>
  An object of an upstream JSON response: the property that becomes the natural key
  (\<^verbatim>\<open>key\<close>, \<^verbatim>\<open>id\<close>, \<^verbatim>\<open>accountId\<close>, \<^verbatim>\<open>groupId\<close>), the labels of an issue
  (\<^verbatim>\<open>fields.labels\<close>), and everything else as one value. A response is a list of such
  objects, whatever property of the document carries it.
\<close>

record raw_entity =
  re_key :: string
  re_labels :: "string list"
  re_body :: string

text \<open>
  A stored row: \<^verbatim>\<open>id\<close>, \<^verbatim>\<open>integration_id\<close>, the natural-key column of the table
  (\<^verbatim>\<open>project_key\<close>, \<^verbatim>\<open>issue_key\<close>, \<^verbatim>\<open>priority_id\<close>, ...), the column that names
  the owning project or issue in the scoped tables, the remaining columns with
  \<^verbatim>\<open>raw_data\<close> as one value, and \<^verbatim>\<open>updated_at\<close>.
\<close>

record entity_row =
  er_id :: nat
  er_integration :: nat
  er_key :: string
  er_scope :: "string option"
  er_data :: string
  er_updated_at :: int

text \<open>
  The console: \<open>Info l\<close> for the \<^verbatim>\<open>console.log\<close> line that opens the run, opens step
  \<open>l\<close> ("Syncing l...") or closes the run, \<open>Synced l n\<close> for "Synced n l",
  \<open>Warn\<close> for the \<^verbatim>\<open>console.warn\<close> of a \<^verbatim>\<open>catch\<close> inside a step, \<open>Fatal\<close> for the
  \<^verbatim>\<open>console.error\<close> of the \<^verbatim>\<open>catch\<close> of \<^verbatim>\<open>syncAllData\<close>.
\<close>

datatype log_line =
    Info string
  | Synced string nat
  | Warn string error
  | Fatal error

text \<open>
  The store of the sync: the rows of each table in rowid order, the largest rowid each
  table has used (AUTOINCREMENT), and the console.
\<close>

record store =
  tables :: "table \<Rightarrow> entity_row list"
  rowseq :: "table \<Rightarrow> nat"
  console :: "log_line list"

text \<open>
  A schema says which tables declare \<^verbatim>\<open>UNIQUE(integration_id, <natural key>)\<close>. The
  tables of \<^verbatim>\<open>initDatabase\<close> (src/database.js, lines 16-350) declare no UNIQUE
  constraint. \<open>unique_keys_schema\<close> is the same tables with the constraint that
  src/setup-database-clean.js declares on each of its tables.
\<close>

type_synonym schema = "table \<Rightarrow> bool"

definition database_js_schema :: schema where
  "database_js_schema t = False"

definition unique_keys_schema :: schema where
  "unique_keys_schema t = True"

datatype api_response =
    NoResponse string
  | HttpError nat string
  | Json "raw_entity list"

text \<open>
  What a sync run is given: the schema of the store, the Jira REST API as a function of
  the endpoint, the clock, and the values of
  \<^verbatim>\<open>`workflow_${Date.now()}_${Math.random()}`\<close> by position.
\<close>

record sync_env =
  schema_of :: schema
  api :: "string \<Rightarrow> api_response"
  clock :: int
  random_id :: "nat \<Rightarrow> string"

definition say :: "log_line \<Rightarrow> store \<Rightarrow> store" where
  "say l db = db\<lparr>console := console db @ [l]\<rparr>"

text \<open>
  \<^verbatim>\<open>INSERT OR REPLACE INTO t (integration_id, <key>, ...) VALUES (...)\<close>. The statement
  never gives \<^verbatim>\<open>id\<close>, so the PRIMARY KEY cannot conflict; rows are replaced only where
  the table declares the UNIQUE constraint. The new row takes the next rowid.
\<close>

definition insert_or_replace ::
  "schema \<Rightarrow> table \<Rightarrow> nat \<Rightarrow> string \<Rightarrow> string option \<Rightarrow> string \<Rightarrow> int \<Rightarrow> store \<Rightarrow> store" where
  "insert_or_replace sch t integrationId k scope dat now db =
     (let kept = (if sch t
                  then filter (\<lambda>r. \<not> (er_integration r = integrationId \<and> er_key r = k)) (tables db t)
                  else tables db t);
          newid = Suc (rowseq db t);
          row = \<lparr>er_id = newid, er_integration = integrationId, er_key = k, er_scope = scope,
                 er_data = dat, er_updated_at = now\<rparr>
      in db\<lparr>tables := (tables db)(t := kept @ [row]), rowseq := (rowseq db)(t := newid)\<rparr>)"

text \<open>The loop \<^verbatim>\<open>for (const x of xs) { await db.run(`INSERT OR REPLACE ...`) }\<close>.\<close>

fun upsert_all ::
  "sync_env \<Rightarrow> table \<Rightarrow> nat \<Rightarrow> string option \<Rightarrow> raw_entity list \<Rightarrow> store \<Rightarrow> store" where
  "upsert_all env t integrationId scope [] db = db"
| "upsert_all env t integrationId scope (x # xs) db =
     upsert_all env t integrationId scope xs
       (insert_or_replace (schema_of env) t integrationId (re_key x) scope (re_body x) (clock env) db)"

section \<open>ComprehensiveJiraSync (src/unnamed/part_000)\<close>

text \<open>\<^verbatim>\<open>makeRequest(endpoint)\<close>, lines 13-31.\<close>

definition makeRequest :: "sync_env \<Rightarrow> string \<Rightarrow> error + raw_entity list" where
  "makeRequest env endpoint =
     (case api env endpoint of
        NoResponse msg \<Rightarrow> Inl (FetchFailed msg)
      | HttpError status body \<Rightarrow> Inl (JiraApiError status body)
      | Json items \<Rightarrow> Inr items)"

text \<open>
  The shape of \<^verbatim>\<open>syncProjects\<close>, \<^verbatim>\<open>syncIssueTypes\<close>, \<^verbatim>\<open>syncPriorities\<close>,
  \<^verbatim>\<open>syncStatuses\<close>, \<^verbatim>\<open>syncResolutions\<close> and \<^verbatim>\<open>syncIssueFields\<close>: log, request,
  insert every item, log. A rejected request leaves the function as an exception.
\<close>

definition sync_collection ::
  "table \<Rightarrow> string \<Rightarrow> string \<Rightarrow> sync_env \<Rightarrow> nat \<Rightarrow> store \<Rightarrow> error option \<times> store" where
  "sync_collection t label endpoint env integrationId db =
     (let db1 = say (Info label) db
      in case makeRequest env endpoint of
           Inl e \<Rightarrow> (Some e, db1)
         | Inr items \<Rightarrow>
             (None, say (Synced label (length items))
                      (upsert_all env t integrationId None items db1)))"

text \<open>
  The shape of \<^verbatim>\<open>syncUsers\<close>, \<^verbatim>\<open>syncGroups\<close>, \<^verbatim>\<open>syncDashboards\<close>,
  \<^verbatim>\<open>syncFilters\<close> and \<^verbatim>\<open>syncPermissions\<close>: the same body inside
  \<^verbatim>\<open>try { ... } catch (error) { console.warn(...) }\<close>.
\<close>

definition sync_collection_guarded ::
  "table \<Rightarrow> string \<Rightarrow> string \<Rightarrow> sync_env \<Rightarrow> nat \<Rightarrow> store \<Rightarrow> error option \<times> store" where
  "sync_collection_guarded t label endpoint env integrationId db =
     (let db1 = say (Info label) db
      in case makeRequest env endpoint of
           Inl e \<Rightarrow> (None, say (Warn label e) db1)
         | Inr items \<Rightarrow>
             (None, say (Synced label (length items))
                      (upsert_all env t integrationId None items db1)))"

text \<open>\<^verbatim>\<open>SELECT <key> FROM t WHERE integration_id = ?\<close>.\<close>

definition select_keys :: "table \<Rightarrow> nat \<Rightarrow> store \<Rightarrow> string list" where
  "select_keys t integrationId db =
     map er_key (filter (\<lambda>r. er_integration r = integrationId) (tables db t))"

text \<open>
  The loop over the projects (or issues) read from the store, each iteration in its own
  \<^verbatim>\<open>try\<close>/\<^verbatim>\<open>catch\<close>: request the sub-collection of that key, insert its items and count
  them; on a rejected request warn and go on with the next key.
\<close>

fun sync_each ::
  "table \<Rightarrow> string \<Rightarrow> (string \<Rightarrow> string) \<Rightarrow> sync_env \<Rightarrow> nat \<Rightarrow> string list \<Rightarrow> nat \<Rightarrow> store
     \<Rightarrow> nat \<times> store" where
  "sync_each t label path env integrationId [] count db = (count, db)"
| "sync_each t label path env integrationId (k # ks) count db =
     (case makeRequest env (path k) of
        Inl e \<Rightarrow> sync_each t label path env integrationId ks count (say (Warn (label @ '' '' @ k) e) db)
      | Inr items \<Rightarrow>
          sync_each t label path env integrationId ks (count + length items)
            (upsert_all env t integrationId (Some k) items db))"

definition sync_scoped ::
  "table \<Rightarrow> string \<Rightarrow> table \<Rightarrow> (string \<Rightarrow> string) \<Rightarrow> sync_env \<Rightarrow> nat \<Rightarrow> store
     \<Rightarrow> error option \<times> store" where
  "sync_scoped t label parent path env integrationId db =
     (let db1 = say (Info label) db;
          ks = select_keys parent integrationId db1;
          r = sync_each t label path env integrationId ks 0 db1
      in (None, say (Synced label (fst r)) (snd r)))"

definition syncProjects :: "sync_env \<Rightarrow> nat \<Rightarrow> store \<Rightarrow> error option \<times> store" where
  "syncProjects = sync_collection Projects ''projects'' ''/project''"

definition syncIssueTypes :: "sync_env \<Rightarrow> nat \<Rightarrow> store \<Rightarrow> error option \<times> store" where
  "syncIssueTypes = sync_collection IssueTypes ''issue types'' ''/issuetype''"

definition syncPriorities :: "sync_env \<Rightarrow> nat \<Rightarrow> store \<Rightarrow> error option \<times> store" where
  "syncPriorities = sync_collection Priorities ''priorities'' ''/priority''"

definition syncStatuses :: "sync_env \<Rightarrow> nat \<Rightarrow> store \<Rightarrow> error option \<times> store" where
  "syncStatuses = sync_collection Statuses ''statuses'' ''/status''"

definition syncResolutions :: "sync_env \<Rightarrow> nat \<Rightarrow> store \<Rightarrow> error option \<times> store" where
  "syncResolutions = sync_collection Resolutions ''resolutions'' ''/resolution''"

definition syncUsers :: "sync_env \<Rightarrow> nat \<Rightarrow> store \<Rightarrow> error option \<times> store" where
  "syncUsers = sync_collection_guarded Users ''users'' ''/users/search?maxResults=1000''"

definition syncGroups :: "sync_env \<Rightarrow> nat \<Rightarrow> store \<Rightarrow> error option \<times> store" where
  "syncGroups = sync_collection_guarded Groups ''groups'' ''/groups/picker?maxResults=1000''"

definition syncIssueFields :: "sync_env \<Rightarrow> nat \<Rightarrow> store \<Rightarrow> error option \<times> store" where
  "syncIssueFields = sync_collection Fields ''issue fields'' ''/field''"

text \<open>
  \<^verbatim>\<open>syncLabels\<close>, lines 346-377: the labels of the issues of one search, collected in a
  \<^verbatim>\<open>Set\<close> (first occurrences, in order), each inserted with \<^verbatim>\<open>usage_count\<close> 1.
\<close>

definition label_set :: "string list \<Rightarrow> string list" where
  "label_set ls = rev (remdups (rev ls))"

definition syncLabels :: "sync_env \<Rightarrow> nat \<Rightarrow> store \<Rightarrow> error option \<times> store" where
  "syncLabels env integrationId db =
     (let db1 = say (Info ''labels'') db
      in case makeRequest env
                ''/search?jql=updated >= -30d ORDER BY updated DESC&maxResults=100'' of
           Inl e \<Rightarrow> (None, say (Warn ''labels'' e) db1)
         | Inr issues \<Rightarrow>
             (let labelSet = label_set (concat (map re_labels issues))
              in (None, say (Synced ''labels'' (length labelSet))
                    (upsert_all env Labels integrationId None
                       (map (\<lambda>l. \<lparr>re_key = l, re_labels = [], re_body = ''1''\<rparr>) labelSet) db1))))"

definition syncComponents :: "sync_env \<Rightarrow> nat \<Rightarrow> store \<Rightarrow> error option \<times> store" where
  "syncComponents =
     sync_scoped Components ''components'' Projects (\<lambda>k. ''/project/'' @ k @ ''/components'')"

definition syncVersions :: "sync_env \<Rightarrow> nat \<Rightarrow> store \<Rightarrow> error option \<times> store" where
  "syncVersions =
     sync_scoped Versions ''versions'' Projects (\<lambda>k. ''/project/'' @ k @ ''/versions'')"

text \<open>
  \<^verbatim>\<open>syncWorkflows\<close>, lines 461-488: a workflow without \<^verbatim>\<open>id\<close> is stored under a
  generated key.
\<close>

definition workflow_ids :: "sync_env \<Rightarrow> raw_entity list \<Rightarrow> raw_entity list" where
  "workflow_ids env workflows =
     map (\<lambda>(n, wf). if re_key wf = [] then wf\<lparr>re_key := random_id env n\<rparr> else wf)
       (enumerate 0 workflows)"

definition syncWorkflows :: "sync_env \<Rightarrow> nat \<Rightarrow> store \<Rightarrow> error option \<times> store" where
  "syncWorkflows env integrationId db =
     (let db1 = say (Info ''workflows'') db
      in case makeRequest env ''/workflow'' of
           Inl e \<Rightarrow> (None, say (Warn ''workflows'' e) db1)
         | Inr workflows \<Rightarrow>
             (None, say (Synced ''workflows'' (length workflows))
                      (upsert_all env Workflows integrationId None (workflow_ids env workflows) db1)))"

definition syncDashboards :: "sync_env \<Rightarrow> nat \<Rightarrow> store \<Rightarrow> error option \<times> store" where
  "syncDashboards = sync_collection_guarded Dashboards ''dashboards'' ''/dashboard''"

definition syncFilters :: "sync_env \<Rightarrow> nat \<Rightarrow> store \<Rightarrow> error option \<times> store" where
  "syncFilters = sync_collection_guarded Filters ''filters'' ''/filter/search?maxResults=1000''"

definition syncPermissions :: "sync_env \<Rightarrow> nat \<Rightarrow> store \<Rightarrow> error option \<times> store" where
  "syncPermissions = sync_collection_guarded Permissions ''permissions'' ''/permissions''"

text \<open>The endpoint of \<^verbatim>\<open>syncIssuesComprehensive\<close>, line 606, for one project key.\<close>

definition issue_search_path :: "string \<Rightarrow> string" where
  "issue_search_path k =
     ''/search/jql?jql=project = '' @ [CHR 0x22] @ k @ [CHR 0x22] @
     '' ORDER BY updated DESC&maxResults=1000&expand=changelog,comments,worklog,attachments,issuelinks''"

text \<open>
  \<^verbatim>\<open>syncIssuesComprehensive\<close>, lines 598-688. Its
  \<^verbatim>\<open>INSERT OR REPLACE INTO jira_issues\<close> (lines 632-641) names 37 columns and has 38
  placeholders. SQLite rejects such a statement when it is prepared, whatever the
  tables are, so the first \<^verbatim>\<open>db.run\<close> of a project's loop throws, before
  \<^verbatim>\<open>totalIssues++\<close>, and the \<^verbatim>\<open>catch\<close> of lines 683-685 warns: the step stores no row.
\<close>

definition rejected_issue_insert :: error where
  "rejected_issue_insert = SqliteError ''38 values for 37 columns''"

fun sync_issues_each :: "sync_env \<Rightarrow> nat \<Rightarrow> string list \<Rightarrow> nat \<Rightarrow> store \<Rightarrow> nat \<times> store" where
  "sync_issues_each env integrationId [] count db = (count, db)"
| "sync_issues_each env integrationId (k # ks) count db =
     (case makeRequest env (issue_search_path k) of
        Inl e \<Rightarrow>
          sync_issues_each env integrationId ks count (say (Warn (''issues '' @ k) e) db)
      | Inr [] \<Rightarrow> sync_issues_each env integrationId ks count db
      | Inr (issue # rest) \<Rightarrow>
          sync_issues_each env integrationId ks count
            (say (Warn (''issues '' @ k) rejected_issue_insert) db))"

definition syncIssuesComprehensive :: "sync_env \<Rightarrow> nat \<Rightarrow> store \<Rightarrow> error option \<times> store" where
  "syncIssuesComprehensive env integrationId db =
     (let db1 = say (Info ''issues'') db;
          ks = select_keys Projects integrationId db1;
          r = sync_issues_each env integrationId ks 0 db1
      in (None, say (Synced ''issues'' (fst r)) (snd r)))"

definition syncIssueComments :: "sync_env \<Rightarrow> nat \<Rightarrow> store \<Rightarrow> error option \<times> store" where
  "syncIssueComments =
     sync_scoped Comments ''issue comments'' Issues (\<lambda>k. ''/issue/'' @ k @ ''/comment'')"

definition syncIssueWorklogs :: "sync_env \<Rightarrow> nat \<Rightarrow> store \<Rightarrow> error option \<times> store" where
  "syncIssueWorklogs =
     sync_scoped Worklogs ''issue worklogs'' Issues (\<lambda>k. ''/issue/'' @ k @ ''/worklog'')"

definition syncIssueAttachments :: "sync_env \<Rightarrow> nat \<Rightarrow> store \<Rightarrow> error option \<times> store" where
  "syncIssueAttachments =
     sync_scoped Attachments ''issue attachments'' Issues
       (\<lambda>k. ''/issue/'' @ k @ ''?fields=attachment'')"

definition syncIssueLinks :: "sync_env \<Rightarrow> nat \<Rightarrow> store \<Rightarrow> error option \<times> store" where
  "syncIssueLinks =
     sync_scoped IssueLinks ''issue links'' Issues (\<lambda>k. ''/issue/'' @ k @ ''?fields=issuelinks'')"

text \<open>A sequence of awaited steps: the first exception ends it.\<close>

fun run_steps :: "(store \<Rightarrow> error option \<times> store) list \<Rightarrow> store \<Rightarrow> error option \<times> store" where
  "run_steps [] db = (None, db)"
| "run_steps (step # steps) db =
     (case step db of
        (Some e, db') \<Rightarrow> (Some e, db')
      | (None, db') \<Rightarrow> run_steps steps db')"

text \<open>
  \<^verbatim>\<open>syncAllData(integrationId)\<close>, lines 36-106: the twenty steps in order inside one
  \<^verbatim>\<open>try\<close>, whose \<^verbatim>\<open>catch\<close> logs the error and throws it again.
\<close>

definition syncAllData :: "sync_env \<Rightarrow> nat \<Rightarrow> store \<Rightarrow> error option \<times> store" where
  "syncAllData env integrationId db =
     (case run_steps
             [syncProjects env integrationId,
              syncIssueTypes env integrationId,
              syncPriorities env integrationId,
              syncStatuses env integrationId,
              syncResolutions env integrationId,
              syncUsers env integrationId,
              syncGroups env integrationId,
              syncIssueFields env integrationId,
              syncLabels env integrationId,
              syncComponents env integrationId,
              syncVersions env integrationId,
              syncWorkflows env integrationId,
              syncDashboards env integrationId,
              syncFilters env integrationId,
              syncPermissions env integrationId,
              syncIssuesComprehensive env integrationId,
              syncIssueComments env integrationId,
              syncIssueWorklogs env integrationId,
              syncIssueAttachments env integrationId,
              syncIssueLinks env integrationId]
             (say (Info ''Starting comprehensive Jira data sync...'') db) of
        (Some e, db') \<Rightarrow> (Some e, say (Fatal e) db')
      | (None, db') \<Rightarrow>
          (None, say (Info ''Comprehensive Jira data sync completed successfully!'') db'))"

text \<open>
  The endpoints requested by the six steps that have no \<^verbatim>\<open>try\<close> of their own, in the
  order in which \<^verbatim>\<open>syncAllData\<close> reaches them, and the first error among them.
\<close>

definition unguarded_endpoints :: "string list" where
  "unguarded_endpoints =
     [''/project'', ''/issuetype'', ''/priority'', ''/status'', ''/resolution'', ''/field'']"

definition request_error :: "sync_env \<Rightarrow> string \<Rightarrow> error option" where
  "request_error env endpoint =
     (case makeRequest env endpoint of Inl e \<Rightarrow> Some e | Inr items \<Rightarrow> None)"

fun first_some :: "'a option list \<Rightarrow> 'a option" where
  "first_some [] = None"
| "first_some (Some e # rest) = Some e"
| "first_some (None # rest) = first_some rest"

definition first_error :: "sync_env \<Rightarrow> string list \<Rightarrow> error option" where
  "first_error env endpoints = first_some (map (request_error env) endpoints)"

text \<open>
  The labels of the \<^verbatim>\<open>console.log\<close> lines with which \<^verbatim>\<open>syncAllData\<close> and each step
  announce themselves, in the order in which they were written.
\<close>

fun info_labels :: "log_line list \<Rightarrow> string list" where
  "info_labels [] = []"
| "info_labels (Info l # rest) = l # info_labels rest"
| "info_labels (other # rest) = info_labels rest"

definition started :: "store \<Rightarrow> string list" where
  "started db = info_labels (console db)"

text \<open>
  For each step of \<^verbatim>\<open>syncAllData\<close> in order, the error with which it leaves (if any)
  and its label; and the labels of the steps that run: all up to and including the first
  that leaves with an error.
\<close>

fun through_first_failure :: "(error option \<times> string) list \<Rightarrow> string list" where
  "through_first_failure [] = []"
| "through_first_failure ((None, l) # rest) = l # through_first_failure rest"
| "through_first_failure ((Some e, l) # rest) = [l]"

definition step_plan :: "sync_env \<Rightarrow> (error option \<times> string) list" where
  "step_plan env =
     [(request_error env ''/project'', ''projects''),
      (request_error env ''/issuetype'', ''issue types''),
      (request_error env ''/priority'', ''priorities''),
      (request_error env ''/status'', ''statuses''),
      (request_error env ''/resolution'', ''resolutions''),
      (None, ''users''),
      (None, ''groups''),
      (request_error env ''/field'', ''issue fields''),
      (None, ''labels''),
      (None, ''components''),
      (None, ''versions''),
      (None, ''workflows''),
      (None, ''dashboards''),
      (None, ''filters''),
      (None, ''permissions''),
      (None, ''issues''),
      (None, ''issue comments''),
      (None, ''issue worklogs''),
      (None, ''issue attachments''),
      (None, ''issue links'')]"

text \<open>A store with no rows, and an API on which only \<^verbatim>\<open>/priority\<close> fails.\<close>

definition empty_store :: store where
  "empty_store = \<lparr>tables = (\<lambda>t. []), rowseq = (\<lambda>t. 0), console = []\<rparr>"

definition priorities_down :: sync_env where
  "priorities_down =
     \<lparr>schema_of = database_js_schema,
      api = (\<lambda>endpoint. if endpoint = ''/priority'' then HttpError 500 ''boom'' else Json []),
      clock = 0,
      random_id = (\<lambda>n. ''workflow_0_0'')\<rparr>"

text \<open>An API on which every endpoint fails except those of the six unguarded steps.\<close>

definition only_core_up :: sync_env where
  "only_core_up =
     \<lparr>schema_of = database_js_schema,
      api = (\<lambda>endpoint. if endpoint \<in> set unguarded_endpoints then Json []
                         else HttpError 403 ''forbidden''),
      clock = 0,
      random_id = (\<lambda>n. ''workflow_0_0'')\<rparr>"

text \<open>An upstream whose project list is the single project \<^verbatim>\<open>P\<close>.\<close>

definition one_project_upstream :: "schema \<Rightarrow> sync_env" where
  "one_project_upstream sch =
     \<lparr>schema_of = sch,
      api = (\<lambda>endpoint. if endpoint = ''/project''
                         then Json [\<lparr>re_key = ''P'', re_labels = [], re_body = ''Project P''\<rparr>]
                         else Json []),
      clock = 0,
      random_id = (\<lambda>n. ''workflow_0_0'')\<rparr>"

text \<open>The key triple of the rows of a table: account, entity type, natural key.\<close>

definition key_triples :: "table \<Rightarrow> store \<Rightarrow> (nat \<times> table \<times> string) list" where
  "key_triples t db = map (\<lambda>r. (er_integration r, t, er_key r)) (tables db t)"

definition sync_projects_twice :: "schema \<Rightarrow> store" where
  "sync_projects_twice sch =
     snd (syncProjects (one_project_upstream sch) 1
       (snd (syncProjects (one_project_upstream sch) 1 empty_store)))"

section \<open>JiraApiService (src/jira-api.js)\<close>

text \<open>
  The JSON body that \<^verbatim>\<open>getIssues\<close> posts to \<^verbatim>\<open>/rest/api/3/search/jql\<close>, lines 88-103.
  \<open>sr_startAt\<close> is the body's \<^verbatim>\<open>startAt\<close> property, \<open>None\<close> when the body has none.
\<close>

record search_request =
  sr_jql :: string
  sr_maxResults :: nat
  sr_startAt :: "nat option"
  sr_fields :: "string list"

text \<open>
  \<^verbatim>\<open>getIssues(cloudId, projectKey, startAt = 0, maxResults = 50)\<close>, lines 76-111. The
  search service is a function of the cloud id and the posted body; the result is
  \<^verbatim>\<open>issuesData.issues || []\<close>.
\<close>

definition getIssues ::
  "(string \<Rightarrow> search_request \<Rightarrow> api_response) \<Rightarrow> string \<Rightarrow> string \<Rightarrow> nat \<Rightarrow> nat
     \<Rightarrow> error + raw_entity list" where
  "getIssues search cloudId projectKey startAt maxResults =
     (case search cloudId
             \<lparr>sr_jql = ''project = '' @ [CHR 0x22] @ projectKey @ [CHR 0x22] @
                        '' ORDER BY updated DESC'',
              sr_maxResults = maxResults,
              sr_startAt = None,
              sr_fields = [''summary'', ''status'', ''assignee'', ''issuetype'',
                           ''customfield_10014'', ''customfield_10016'', ''labels'',
                           ''components'', ''parent'', ''subtasks'']\<rparr> of
        NoResponse msg \<Rightarrow> Inl (FetchFailed msg)
      | HttpError status body \<Rightarrow> Inl (JiraApiError status body)
      | Json issues \<Rightarrow> Inr issues)"

text \<open>
  The statement of lines 175-209,
  \<^verbatim>\<open>INSERT INTO jira_issues (...) VALUES (...) ON CONFLICT(integration_id, issue_key) DO UPDATE SET ...\<close>.
  SQLite accepts a conflict target only if it is the column list of a PRIMARY KEY or
  UNIQUE constraint of the table, and otherwise rejects the statement. Where it is
  accepted, a row with the same integration and key is updated in place; else a new row
  is appended. Either way the statement takes a rowid from the AUTOINCREMENT counter.
\<close>

definition upsert_issue ::
  "schema \<Rightarrow> nat \<Rightarrow> string \<Rightarrow> int \<Rightarrow> raw_entity \<Rightarrow> store \<Rightarrow> error option \<times> store" where
  "upsert_issue sch integrationId projectId now issue db =
     (if \<not> sch Issues
      then (Some (SqliteError
                   ''ON CONFLICT clause does not match any PRIMARY KEY or UNIQUE constraint''),
            db)
      else if list_ex (\<lambda>r. er_integration r = integrationId \<and> er_key r = re_key issue)
                (tables db Issues)
      then (None,
            db\<lparr>tables := (tables db)(Issues :=
                 map (\<lambda>r. if er_integration r = integrationId \<and> er_key r = re_key issue
                           then r\<lparr>er_scope := Some projectId, er_data := re_body issue,
                                  er_updated_at := now\<rparr>
                           else r) (tables db Issues)),
               rowseq := (rowseq db)(Issues := Suc (rowseq db Issues))\<rparr>)
      else (None,
            db\<lparr>tables := (tables db)(Issues := tables db Issues @
                   [\<lparr>er_id = Suc (rowseq db Issues), er_integration = integrationId,
                     er_key = re_key issue, er_scope = Some projectId,
                     er_data = re_body issue, er_updated_at = now\<rparr>]),
               rowseq := (rowseq db)(Issues := Suc (rowseq db Issues))\<rparr>))"

fun upsert_issues ::
  "schema \<Rightarrow> nat \<Rightarrow> string \<Rightarrow> int \<Rightarrow> raw_entity list \<Rightarrow> store \<Rightarrow> error option \<times> store" where
  "upsert_issues sch integrationId projectId now [] db = (None, db)"
| "upsert_issues sch integrationId projectId now (issue # issues) db =
     (case upsert_issue sch integrationId projectId now issue db of
        (Some e, db') \<Rightarrow> (Some e, db')
      | (None, db') \<Rightarrow> upsert_issues sch integrationId projectId now issues db')"

text \<open>
  What a run of \<^verbatim>\<open>syncIssuesToDatabase\<close> leaves: the returned \<^verbatim>\<open>totalIssues\<close> or the
  exception, the number of \<^verbatim>\<open>getIssues\<close> calls made, and the store.
\<close>

record sync_result =
  outcome :: "error + nat"
  fetch_calls :: nat
  final_store :: store

text \<open>
  The \<^verbatim>\<open>while (true)\<close> loop of \<^verbatim>\<open>syncIssuesToDatabase\<close>, lines 146-217, with
  \<^verbatim>\<open>maxResults\<close> = 100. The loop has no bound of its own: \<open>fuel\<close> bounds the number of
  iterations, and \<open>None\<close> says that the loop is still running when the fuel is spent.
\<close>

definition maxResults :: nat where
  "maxResults = 100"

fun sync_pages ::
  "nat \<Rightarrow> (string \<Rightarrow> search_request \<Rightarrow> api_response) \<Rightarrow> schema \<Rightarrow> int \<Rightarrow> nat \<Rightarrow> string
     \<Rightarrow> string \<Rightarrow> string \<Rightarrow> nat \<Rightarrow> nat \<Rightarrow> nat \<Rightarrow> store \<Rightarrow> sync_result option" where
  "sync_pages 0 search sch now integrationId projectId cloudId projectKey
     startAt totalIssues calls db = None"
| "sync_pages (Suc fuel) search sch now integrationId projectId cloudId projectKey
     startAt totalIssues calls db =
     (case getIssues search cloudId projectKey startAt maxResults of
        Inl e \<Rightarrow> Some \<lparr>outcome = Inl e, fetch_calls = Suc calls, final_store = db\<rparr>
      | Inr issues \<Rightarrow>
          if length issues = 0
          then Some \<lparr>outcome = Inr totalIssues, fetch_calls = Suc calls, final_store = db\<rparr>
          else
            (case upsert_issues sch integrationId projectId now issues db of
               (Some e, db') \<Rightarrow>
                 Some \<lparr>outcome = Inl e, fetch_calls = Suc calls, final_store = db'\<rparr>
             | (None, db') \<Rightarrow>
                 if length issues < maxResults
                 then Some \<lparr>outcome = Inr (totalIssues + length issues),
                            fetch_calls = Suc calls, final_store = db'\<rparr>
                 else sync_pages fuel search sch now integrationId projectId cloudId
                        projectKey (startAt + maxResults) (totalIssues + length issues)
                        (Suc calls) db'))"

definition syncIssuesToDatabase ::
  "nat \<Rightarrow> (string \<Rightarrow> search_request \<Rightarrow> api_response) \<Rightarrow> schema \<Rightarrow> int \<Rightarrow> nat \<Rightarrow> string
     \<Rightarrow> string \<Rightarrow> string \<Rightarrow> store \<Rightarrow> sync_result option" where
  "syncIssuesToDatabase fuel search sch now integrationId projectId cloudId projectKey db =
     sync_pages fuel search sch now integrationId projectId cloudId projectKey 0 0 0 db"

text \<open>
  An issue search that pages by offset, as Jira does: it answers with the \<^verbatim>\<open>maxResults\<close>
  issues that follow offset \<^verbatim>\<open>startAt\<close>, and starts at 0 when the body has no
  \<^verbatim>\<open>startAt\<close>. With 101 issues in the project, page 1 has 100 issues and page 2 has 1.
\<close>

definition offset_source :: "raw_entity list \<Rightarrow> string \<Rightarrow> search_request \<Rightarrow> api_response" where
  "offset_source all_issues cloudId req =
     Json (take (sr_maxResults req)
             (drop (case sr_startAt req of None \<Rightarrow> 0 | Some k \<Rightarrow> k) all_issues))"

definition issues_101 :: "raw_entity list" where
  "issues_101 =
     map (\<lambda>n. \<lparr>re_key = ''P-'' @ replicate n (CHR ''I''), re_labels = [], re_body = ''summary''\<rparr>)
       [0..<101]"

section \<open>Invariants of the integrations table\<close>

text \<open>
  At most one row is both active and primary; \<^verbatim>\<open>id\<close> is a PRIMARY KEY, so no two rows
  share it.
\<close>

definition primary_invariant :: "world \<Rightarrow> bool" where
  "primary_invariant w \<longleftrightarrow>
     length (filter (\<lambda>r. is_active r \<and> is_primary r) (integrations w)) \<le> 1"


section \<open>Scenarios\<close>

text \<open>Concrete configurations, rows, stores and token endpoints used to run the model.\<close>

definition demo_config :: auth_config where
  "demo_config = \<lparr>clientId = ''client'', clientSecret = ''secret''\<rparr>"

definition demo_account :: integration where
  "demo_account =
     \<lparr>row_id = 1, project_id = ''web-auth'', account_name = ''New Account'',
      account_email = ''user@example.com'', jira_domain = ''your-domain.atlassian.net'',
      access_token = ''at0'', refresh_token = Some ''rt0'', expires_at = None,
      last_refresh_at = None, refresh_failures = 0, is_active = True, is_primary = True\<rparr>"

definition demo_world :: world where
  "demo_world = \<lparr>integrations = [demo_account], seq = 1, token_calls = []\<rparr>"

definition always_rejects :: "refresh_request \<Rightarrow> token_response" where
  "always_rejects req = Rejected 403 ''unauthorized_client''"

definition demo_inactive :: integration where
  "demo_inactive = demo_account\<lparr>refresh_token := None, is_active := False\<rparr>"

definition inactive_world :: world where
  "inactive_world = \<lparr>integrations = [demo_inactive], seq = 1, token_calls = []\<rparr>"

definition tokenless_world :: world where
  "tokenless_world =
     \<lparr>integrations = [demo_account\<lparr>refresh_token := None\<rparr>], seq = 1, token_calls = []\<rparr>"

definition always_grants :: "refresh_request \<Rightarrow> token_response" where
  "always_grants req =
     Granted \<lparr>td_access_token = ''at1'', td_refresh_token = None, td_expires_in = 3600\<rparr>"

text \<open>One failing cycle of the scheduler, started with the guard flag down.\<close>

definition failing_cycle :: "world \<Rightarrow> world" where
  "failing_cycle w =
     snd (snd (refreshAllTokens demo_config always_rejects 1000 None (\<lparr>isRunning = False\<rparr>, w)))"

text \<open>An event that lets invocation \<open>k\<close> run to its next suspension.\<close>

definition tick :: "nat \<Rightarrow> event" where
  "tick k = \<lparr>ev_task = k, ev_endpoint = always_rejects, ev_now = 1000, ev_fault = None\<rparr>"




section \<open>Refreshing a token\<close>

subsection \<open>The refresh cycle run without interleaving\<close>

lemma run_cycle_loop:
  "run_cycle cfg endpoint now fault (Loop rows, s, w) =
     (Completed, s\<lparr>isRunning := False\<rparr>, refreshLoop cfg endpoint now rows w)"
  by (induction rows arbitrary: w) simp_all

lemma refreshAllTokens_unfold:
  "refreshAllTokens cfg endpoint now fault (s, w) =
     (if isRunning s then (Skipped, s, w)
      else case fault of
             Some e \<Rightarrow> (CycleError e, s\<lparr>isRunning := False\<rparr>, w)
           | None \<Rightarrow> (Completed, s\<lparr>isRunning := False\<rparr>,
                      refreshLoop cfg endpoint now (filter is_active (integrations w)) w))"
  by (simp add: refreshAllTokens_def run_cycle_loop split: option.splits)

subsection \<open>Helper facts about row lookup\<close>

lemma find_update_same:
  assumes "\<And>r. row_id (f r) = row_id r"
  shows "find (\<lambda>r. row_id r = i) (map (\<lambda>r. if row_id r = i then f r else r) xs) =
         map_option f (find (\<lambda>r. row_id r = i) xs)"
  using assms by (induction xs) auto

lemma find_active_find_id:
  "distinct (map row_id xs) \<Longrightarrow> find (\<lambda>r. row_id r = i \<and> is_active r) xs = Some r
     \<Longrightarrow> find (\<lambda>r. row_id r = i) xs = Some r"
proof (induction xs)
  case Nil
  then show ?case by simp
next
  case (Cons a xs)
  show ?case
  proof (cases "row_id a = i")
    case True
    then have "i \<notin> row_id ` set xs" using Cons.prems(1) by auto
    then have "find (\<lambda>r. row_id r = i \<and> is_active r) xs = None"
      by (auto simp: find_None_iff)
    with Cons.prems(2) True show ?thesis by (simp split: if_splits)
  next
    case False
    with Cons show ?thesis by simp
  qed
qed

text \<open>
  C4 (as amended). When the account exists and is active, \<^verbatim>\<open>refreshAccessToken\<close>
  fails with "No refresh token available" and leaves store and endpoint untouched if the
  stored refresh token is falsy; otherwise it posts exactly one request to the token
  endpoint; a granted response stores the new access token, the refresh token (the old
  one if none came back), the new expiry, \<^verbatim>\<open>last_refresh_at\<close> and a failure counter of
  0; a rejected response adds 1 to the failure counter and fails with "Token refresh
  failed". When no active row has that id, the call fails with "Integration not found"
  before anything else, and changes nothing.
\<close>

theorem C4_refresh_active_account:
  "(get_active i w = None \<longrightarrow>
      refreshAccessToken cfg endpoint now i w = (Inl IntegrationNotFound, w))
   \<and> (\<forall>integ. get_active i w = Some integ \<longrightarrow>
        (falsy (refresh_token integ) \<longrightarrow>
           refreshAccessToken cfg endpoint now i w = (Inl NoRefreshToken, w))
      \<and> (\<not> falsy (refresh_token integ) \<longrightarrow>
           token_calls (snd (refreshAccessToken cfg endpoint now i w)) =
             token_calls w @ [refreshRequest cfg integ])
      \<and> (\<forall>td. \<not> falsy (refresh_token integ) \<and> endpoint (refreshRequest cfg integ) = Granted td \<longrightarrow>
           refreshAccessToken cfg endpoint now i w =
             (Inr \<lparr>accessToken = td_access_token td,
                   refreshToken = or_else (td_refresh_token td) (refresh_token integ),
                   expiresAt = now + td_expires_in td * 1000\<rparr>,
              w\<lparr>integrations :=
                   map (\<lambda>r. if row_id r = i
                             then r\<lparr>access_token := td_access_token td,
                                    refresh_token := or_else (td_refresh_token td) (refresh_token integ),
                                    expires_at := Some (now + td_expires_in td * 1000),
                                    last_refresh_at := Some now,
                                    refresh_failures := 0\<rparr>
                             else r) (integrations w),
                 token_calls := token_calls w @ [refreshRequest cfg integ]\<rparr>))
      \<and> (\<forall>status txt. \<not> falsy (refresh_token integ)
             \<and> endpoint (refreshRequest cfg integ) = Rejected status txt \<longrightarrow>
           refreshAccessToken cfg endpoint now i w =
             (Inl (TokenRefreshFailed status txt),
              w\<lparr>integrations :=
                   map (\<lambda>r. if row_id r = i
                             then r\<lparr>refresh_failures := refresh_failures r + 1\<rparr> else r)
                     (integrations w),
                 token_calls := token_calls w @ [refreshRequest cfg integ]\<rparr>)))"
  by (auto simp: refreshAccessToken_def update_where_id_def Let_def split: token_response.splits)

text \<open>
  The amended C4 at an unknown id, at an active account without refresh token, and at an
  active account with a granting and with a rejecting endpoint.
\<close>

theorem C4_refresh_active_account_witness:
  "refreshAccessToken demo_config always_grants 1000 2 demo_world
        = (Inl IntegrationNotFound, demo_world)
   \<and> refreshAccessToken demo_config always_grants 1000 1 tokenless_world
        = (Inl NoRefreshToken, tokenless_world)
   \<and> refreshAccessToken demo_config always_grants 1000 1 demo_world =
       (Inr \<lparr>accessToken = ''at1'', refreshToken = Some ''rt0'', expiresAt = 3601000\<rparr>,
        \<lparr>integrations = [demo_account\<lparr>access_token := ''at1'', expires_at := Some 3601000,
                            last_refresh_at := Some 1000\<rparr>],
         seq = 1, token_calls = [refreshRequest demo_config demo_account]\<rparr>)
   \<and> refreshAccessToken demo_config always_rejects 1000 1 demo_world =
       (Inl (TokenRefreshFailed 403 ''unauthorized_client''),
        \<lparr>integrations = [demo_account\<lparr>refresh_failures := 1\<rparr>],
         seq = 1, token_calls = [refreshRequest demo_config demo_account]\<rparr>)"
proof -
  have a: "get_active 1 demo_world = Some demo_account"
    by (simp add: get_active_def demo_world_def demo_account_def)
  have n: "get_active 2 demo_world = None"
    by (simp add: get_active_def demo_world_def demo_account_def)
  have t: "get_active 1 tokenless_world = Some (demo_account\<lparr>refresh_token := None\<rparr>)"
    by (simp add: get_active_def tokenless_world_def demo_account_def)
  have b: "\<not> falsy (refresh_token demo_account)"
    by (simp add: demo_account_def)
  have c: "always_grants (refreshRequest demo_config demo_account) =
             Granted \<lparr>td_access_token = ''at1'', td_refresh_token = None, td_expires_in = 3600\<rparr>"
    by (simp add: always_grants_def)
  have d: "always_rejects (refreshRequest demo_config demo_account) =
             Rejected 403 ''unauthorized_client''"
    by (simp add: always_rejects_def)
  from C4_refresh_active_account [where endpoint = always_grants and cfg = demo_config
      and now = 1000 and i = 1 and w = demo_world] a b c
  have 1: "refreshAccessToken demo_config always_grants 1000 1 demo_world =
       (Inr \<lparr>accessToken = ''at1'', refreshToken = Some ''rt0'', expiresAt = 3601000\<rparr>,
        \<lparr>integrations = [demo_account\<lparr>access_token := ''at1'', expires_at := Some 3601000,
                            last_refresh_at := Some 1000\<rparr>],
         seq = 1, token_calls = [refreshRequest demo_config demo_account]\<rparr>)"
    by (simp add: demo_world_def demo_account_def or_else_def)
  from C4_refresh_active_account [where endpoint = always_grants and cfg = demo_config
      and now = 1000 and i = 2 and w = demo_world] n
  have 2: "refreshAccessToken demo_config always_grants 1000 2 demo_world
        = (Inl IntegrationNotFound, demo_world)"
    by simp
  from C4_refresh_active_account [where endpoint = always_grants and cfg = demo_config
      and now = 1000 and i = 1 and w = tokenless_world] t
  have 3: "refreshAccessToken demo_config always_grants 1000 1 tokenless_world
        = (Inl NoRefreshToken, tokenless_world)"
    by simp
  from C4_refresh_active_account [where endpoint = always_rejects and cfg = demo_config
      and now = 1000 and i = 1 and w = demo_world] a b d
  have 4: "refreshAccessToken demo_config always_rejects 1000 1 demo_world =
       (Inl (TokenRefreshFailed 403 ''unauthorized_client''),
        \<lparr>integrations = [demo_account\<lparr>refresh_failures := 1\<rparr>],
         seq = 1, token_calls = [refreshRequest demo_config demo_account]\<rparr>)"
    by (simp add: demo_world_def demo_account_def)
  from 1 2 3 4 show ?thesis by simp
qed

text \<open>
  C4 as stated ("for every account") fails for an account whose active flag is false and
  whose refresh token is absent: the call fails with "Integration not found", not with
  "No refresh token available".
\<close>

theorem C4_inactive_counterexample:
  "get_by_id 1 inactive_world = Some demo_inactive
   \<and> falsy (refresh_token demo_inactive)
   \<and> refreshAccessToken demo_config always_rejects 1000 1 inactive_world
       = (Inl IntegrationNotFound, inactive_world)
   \<and> fst (refreshAccessToken demo_config always_rejects 1000 1 inactive_world) \<noteq> Inl NoRefreshToken"
  by (simp add: refreshAccessToken_def get_active_def get_by_id_def inactive_world_def
        demo_inactive_def demo_account_def)

text \<open>
  C9. On a successful refresh whose token document carries no refresh token, the row
  keeps the refresh token it had, and the returned \<^verbatim>\<open>refreshToken\<close> is that value.
\<close>

theorem C9_refresh_token_retained:
  assumes "distinct (map row_id (integrations w))"
    and "get_active i w = Some integ"
    and "\<not> falsy (refresh_token integ)"
    and "endpoint (refreshRequest cfg integ) = Granted td"
    and "falsy (td_refresh_token td)"
  shows "\<exists>toks w' r'. refreshAccessToken cfg endpoint now i w = (Inr toks, w')
           \<and> refreshToken toks = refresh_token integ
           \<and> get_by_id i w = Some integ
           \<and> get_by_id i w' = Some r'
           \<and> refresh_token r' = refresh_token integ
           \<and> refresh_token r' \<noteq> None"
proof -
  have g: "get_by_id i w = Some integ"
    using assms(1,2) unfolding get_active_def get_by_id_def by (rule find_active_find_id)
  show ?thesis
    using assms(2-5) g
    by (cases "refresh_token integ")
       (simp_all add: refreshAccessToken_def update_where_id_def Let_def or_else_def
          get_by_id_def find_update_same)
qed

text \<open>C9 at the demo account with an endpoint that grants without a refresh token.\<close>

theorem C9_refresh_token_retained_witness:
  "\<exists>w'. refreshAccessToken demo_config always_grants 1000 1 demo_world =
          (Inr \<lparr>accessToken = ''at1'', refreshToken = Some ''rt0'', expiresAt = 3601000\<rparr>, w')
        \<and> map refresh_token (integrations w') = [Some ''rt0'']"
proof -
  have d: "distinct (map row_id (integrations demo_world))"
    by (simp add: demo_world_def)
  have a: "get_active 1 demo_world = Some demo_account"
    by (simp add: get_active_def demo_world_def demo_account_def)
  have b: "\<not> falsy (refresh_token demo_account)"
    by (simp add: demo_account_def)
  have c: "always_grants (refreshRequest demo_config demo_account) =
             Granted \<lparr>td_access_token = ''at1'', td_refresh_token = None, td_expires_in = 3600\<rparr>"
    by (simp add: always_grants_def)
  have e: "falsy (td_refresh_token \<lparr>td_access_token = ''at1'', td_refresh_token = None, td_expires_in = 3600\<rparr>)"
    by simp
  from C9_refresh_token_retained [where endpoint = always_grants and cfg = demo_config
      and now = 1000, OF d a b c e]
  obtain toks w' r' where r: "refreshAccessToken demo_config always_grants 1000 1 demo_world = (Inr toks, w')"
    "refreshToken toks = refresh_token demo_account" "get_by_id 1 w' = Some r'"
    "refresh_token r' = refresh_token demo_account"
    by blast
  then show ?thesis
    by (auto simp: refreshAccessToken_def get_active_def demo_world_def demo_account_def
          always_grants_def or_else_def update_where_id_def Let_def refreshRequest_def)
qed

text \<open>
  C10. On a response with \<^verbatim>\<open>response.ok\<close> false, the call changes the integrations table
  only by adding 1 to \<^verbatim>\<open>refresh_failures\<close> of the row with that id: every other column
  of every row, and the number and order of rows, stay as they were.
\<close>

theorem C10_failed_refresh_frame:
  assumes "get_active i w = Some integ"
    and "\<not> falsy (refresh_token integ)"
    and "endpoint (refreshRequest cfg integ) = Rejected status txt"
  shows "refreshAccessToken cfg endpoint now i w =
           (Inl (TokenRefreshFailed status txt),
            w\<lparr>integrations :=
                 map (\<lambda>r. if row_id r = i then r\<lparr>refresh_failures := refresh_failures r + 1\<rparr> else r)
                   (integrations w),
               token_calls := token_calls w @ [refreshRequest cfg integ]\<rparr>)
         \<and> (let rows = integrations w;
                 rows' = integrations (snd (refreshAccessToken cfg endpoint now i w))
             in length rows' = length rows
              \<and> (\<forall>k<length rows.
                    row_id (rows' ! k) = row_id (rows ! k)
                  \<and> access_token (rows' ! k) = access_token (rows ! k)
                  \<and> refresh_token (rows' ! k) = refresh_token (rows ! k)
                  \<and> expires_at (rows' ! k) = expires_at (rows ! k)
                  \<and> last_refresh_at (rows' ! k) = last_refresh_at (rows ! k)
                  \<and> is_active (rows' ! k) = is_active (rows ! k)
                  \<and> is_primary (rows' ! k) = is_primary (rows ! k)
                  \<and> refresh_failures (rows' ! k) =
                      (if row_id (rows ! k) = i then refresh_failures (rows ! k) + 1
                       else refresh_failures (rows ! k))))"
  using assms by (simp add: refreshAccessToken_def update_where_id_def Let_def)

text \<open>C10 at the demo account with a rejecting endpoint.\<close>

theorem C10_failed_refresh_frame_witness:
  "refreshAccessToken demo_config always_rejects 1000 1 demo_world =
     (Inl (TokenRefreshFailed 403 ''unauthorized_client''),
      \<lparr>integrations = [demo_account\<lparr>refresh_failures := 1\<rparr>], seq = 1,
       token_calls = [refreshRequest demo_config demo_account]\<rparr>)"
proof -
  have a: "get_active 1 demo_world = Some demo_account"
    by (simp add: get_active_def demo_world_def demo_account_def)
  have b: "\<not> falsy (refresh_token demo_account)"
    by (simp add: demo_account_def)
  have c: "always_rejects (refreshRequest demo_config demo_account) = Rejected 403 ''unauthorized_client''"
    by (simp add: always_rejects_def)
  from C10_failed_refresh_frame [where endpoint = always_rejects and cfg = demo_config and now = 1000, OF a b c] show ?thesis
    by (simp add: demo_world_def demo_account_def)
qed

text \<open>
  C5. \<^verbatim>\<open>needsRefresh\<close> is true exactly when \<^verbatim>\<open>expires_at\<close> is absent or at most
  300 seconds after now; it is false for an expiry 301 seconds after now. The function
  maps a record and a clock reading to a boolean and nothing else: it neither takes nor
  returns the store, and the record it is given is its only input.
\<close>

theorem C5_needsRefresh_buffer:
  "(needsRefresh now integ \<longleftrightarrow>
      expires_at integ = None \<or> (\<exists>e. expires_at integ = Some e \<and> e \<le> now + 300 * 1000))
   \<and> \<not> needsRefresh now (integ\<lparr>expires_at := Some (now + 301 * 1000)\<rparr>)
   \<and> needsRefresh now (integ\<lparr>expires_at := Some (now + 300 * 1000)\<rparr>)
   \<and> needsRefresh now (integ\<lparr>expires_at := None\<rparr>)"
  by (cases "expires_at integ") (simp_all add: needsRefresh_def bufferTime_def)

section \<open>Deactivation after repeated failures\<close>

lemma failing_cycle_runs:
  "failing_cycle w = refreshLoop demo_config always_rejects 1000 (filter is_active (integrations w)) w"
  by (simp add: failing_cycle_def refreshAllTokens_unfold)

lemma demo_step:
  "refreshStep demo_config always_rejects 1000 (demo_account\<lparr>refresh_failures := n, is_active := True\<rparr>)
     \<lparr>integrations = [demo_account\<lparr>refresh_failures := n, is_active := True\<rparr>], seq = q, token_calls = cs\<rparr>
   = \<lparr>integrations = [demo_account\<lparr>refresh_failures := Suc n, is_active := n < 3\<rparr>], seq = q,
      token_calls = cs @ [refreshRequest demo_config demo_account]\<rparr>"
  by (simp add: refreshStep_def needsRefresh_def refreshAccessToken_def get_active_def
        demo_account_def always_rejects_def update_where_id_def deactivate_def refreshRequest_def)

lemma demo_cycle:
  "failing_cycle \<lparr>integrations = [demo_account\<lparr>refresh_failures := n, is_active := True\<rparr>], seq = q, token_calls = cs\<rparr>
   = \<lparr>integrations = [demo_account\<lparr>refresh_failures := Suc n, is_active := n < 3\<rparr>], seq = q,
      token_calls = cs @ [refreshRequest demo_config demo_account]\<rparr>"
  by (simp add: failing_cycle_runs demo_step)

text \<open>
  C3 as stated fails at the demo account with an endpoint that always rejects: after
  three consecutive failing refresh cycles the failure counter is 3 and the account is
  still active; the fourth failing cycle clears the flag, and from then on
  \<^verbatim>\<open>refreshAccessToken\<close> fails with "Integration not found", where it failed with
  "Token refresh failed" before.
\<close>

theorem C3_three_failures_counterexample:
  "is_active demo_account \<and> refresh_failures demo_account = 0
   \<and> map refresh_failures (integrations (failing_cycle (failing_cycle (failing_cycle demo_world)))) = [3]
   \<and> map is_active (integrations (failing_cycle (failing_cycle (failing_cycle demo_world)))) = [True]
   \<and> fst (refreshAccessToken demo_config always_rejects 1000 1
             (failing_cycle (failing_cycle (failing_cycle demo_world))))
       = Inl (TokenRefreshFailed 403 ''unauthorized_client'')
   \<and> map is_active (integrations
         (failing_cycle (failing_cycle (failing_cycle (failing_cycle demo_world))))) = [False]
   \<and> fst (refreshAccessToken demo_config always_rejects 1000 1
             (failing_cycle (failing_cycle (failing_cycle (failing_cycle demo_world)))))
       = Inl IntegrationNotFound"
proof -
  have w0: "demo_world = \<lparr>integrations = [demo_account\<lparr>refresh_failures := 0, is_active := True\<rparr>],
       seq = 1, token_calls = []\<rparr>"
    by (simp add: demo_world_def demo_account_def)
  have w3: "failing_cycle (failing_cycle (failing_cycle demo_world)) =
     \<lparr>integrations = [demo_account\<lparr>refresh_failures := 3, is_active := True\<rparr>], seq = 1,
      token_calls = replicate 3 (refreshRequest demo_config demo_account)\<rparr>"
    by (simp add: w0 demo_cycle numeral_3_eq_3)
  have w4: "failing_cycle (failing_cycle (failing_cycle (failing_cycle demo_world))) =
     \<lparr>integrations = [demo_account\<lparr>refresh_failures := 4, is_active := False\<rparr>], seq = 1,
      token_calls = replicate 4 (refreshRequest demo_config demo_account)\<rparr>"
    unfolding w3 by (simp add: demo_cycle eval_nat_numeral)
  show ?thesis
    unfolding w4 unfolding w3
    by (simp add: demo_account_def refreshAccessToken_def get_active_def always_rejects_def
          update_where_id_def refreshRequest_def)
qed

lemma is_active_update_where_id:
  assumes "\<And>r. is_active (f r) = is_active r"
  shows "map is_active (integrations (update_where_id i f w)) = map is_active (integrations w)"
  using assms by (simp add: update_where_id_def comp_def if_distrib cong: if_cong)

lemma refreshAccessToken_is_active:
  "map is_active (integrations (snd (refreshAccessToken cfg endpoint now i w)))
     = map is_active (integrations w)"
proof (cases "get_active i w")
  case None
  then show ?thesis by (simp add: refreshAccessToken_def)
next
  case (Some integ)
  show ?thesis
  proof (cases "falsy (refresh_token integ)")
    case True
    with Some show ?thesis by (simp add: refreshAccessToken_def)
  next
    case False
    with Some show ?thesis
      by (cases "endpoint (refreshRequest cfg integ)")
         (simp_all add: refreshAccessToken_def Let_def is_active_update_where_id)
  qed
qed

lemma inactive_not_selected:
  assumes "distinct (map row_id (integrations w))"
    and "r \<in> set (integrations w)" and "row_id r = i" and "\<not> is_active r"
  shows "get_active i w = None"
  unfolding get_active_def find_None_iff
proof (intro notI, elim exE conjE)
  fix x assume x: "x \<in> set (integrations w)" "row_id x = i" "is_active x"
  from assms(1) x(1) assms(2) x(2) assms(3) have "x = r"
    by (metis distinct_map inj_onD)
  with x(3) assms(4) show False by simp
qed

text \<open>
  C3 (as amended). For an account whose active flag is false, \<^verbatim>\<open>refreshAccessToken\<close>
  fails with "Integration not found" and reaches neither the endpoint nor the store;
  for an active account whose refresh the endpoint rejects it fails with "Token refresh
  failed", a different error. No call of \<^verbatim>\<open>refreshAccessToken\<close> changes the active
  flag of any row.
\<close>

theorem C3_refresh_after_deactivation:
  "(\<forall>r. distinct (map row_id (integrations w)) \<and> r \<in> set (integrations w)
          \<and> row_id r = i \<and> \<not> is_active r \<longrightarrow>
        refreshAccessToken cfg endpoint now i w = (Inl IntegrationNotFound, w))
   \<and> (\<forall>integ status body.
          get_active i w = Some integ \<and> \<not> falsy (refresh_token integ)
          \<and> endpoint (refreshRequest cfg integ) = Rejected status body \<longrightarrow>
        fst (refreshAccessToken cfg endpoint now i w) = Inl (TokenRefreshFailed status body)
        \<and> fst (refreshAccessToken cfg endpoint now i w) \<noteq> Inl IntegrationNotFound)
   \<and> map is_active (integrations (snd (refreshAccessToken cfg endpoint now i w)))
        = map is_active (integrations w)"
proof (intro conjI allI impI)
  fix r
  assume "distinct (map row_id (integrations w)) \<and> r \<in> set (integrations w)
            \<and> row_id r = i \<and> \<not> is_active r"
  then have "get_active i w = None"
    using inactive_not_selected [of w r i] by simp
  then show "refreshAccessToken cfg endpoint now i w = (Inl IntegrationNotFound, w)"
    by (simp add: refreshAccessToken_def)
next
  fix integ status body
  assume a: "get_active i w = Some integ \<and> \<not> falsy (refresh_token integ)
               \<and> endpoint (refreshRequest cfg integ) = Rejected status body"
  then show f: "fst (refreshAccessToken cfg endpoint now i w) = Inl (TokenRefreshFailed status body)"
    by (simp add: refreshAccessToken_def Let_def)
  then show "fst (refreshAccessToken cfg endpoint now i w) \<noteq> Inl IntegrationNotFound"
    by simp
next
  show "map is_active (integrations (snd (refreshAccessToken cfg endpoint now i w)))
          = map is_active (integrations w)"
    by (rule refreshAccessToken_is_active)
qed

text \<open>
  The amended C3 at a store holding one deactivated account, and at the demo account
  with a rejecting endpoint.
\<close>

theorem C3_refresh_after_deactivation_witness:
  "refreshAccessToken demo_config always_rejects 1000 1 inactive_world
        = (Inl IntegrationNotFound, inactive_world)
   \<and> fst (refreshAccessToken demo_config always_rejects 1000 1 demo_world)
        = Inl (TokenRefreshFailed 403 ''unauthorized_client'')"
proof -
  have a: "distinct (map row_id (integrations inactive_world))
            \<and> demo_inactive \<in> set (integrations inactive_world)
            \<and> row_id demo_inactive = 1 \<and> \<not> is_active demo_inactive"
    by (simp add: inactive_world_def demo_inactive_def demo_account_def)
  have b: "get_active 1 demo_world = Some demo_account \<and> \<not> falsy (refresh_token demo_account)
            \<and> always_rejects (refreshRequest demo_config demo_account)
                = Rejected 403 ''unauthorized_client''"
    by (simp add: get_active_def demo_world_def demo_account_def always_rejects_def)
  from C3_refresh_after_deactivation [where cfg = demo_config and endpoint = always_rejects
      and now = 1000 and i = 1 and w = inactive_world] a
  have 1: "refreshAccessToken demo_config always_rejects 1000 1 inactive_world
        = (Inl IntegrationNotFound, inactive_world)"
    by blast
  from C3_refresh_after_deactivation [where cfg = demo_config and endpoint = always_rejects
      and now = 1000 and i = 1 and w = demo_world] b
  have 2: "fst (refreshAccessToken demo_config always_rejects 1000 1 demo_world)
        = Inl (TokenRefreshFailed 403 ''unauthorized_client'')"
    by blast
  from 1 2 show ?thesis by simp
qed

section \<open>The primary account\<close>












lemma primary_invariant_calls [simp]:
  "primary_invariant (w\<lparr>token_calls := cs\<rparr>) = primary_invariant w"
  by (simp add: primary_invariant_def)








section \<open>The re-entrancy guard of the refresh cycle\<close>

text \<open>
  Under every interleaving, at most one invocation is inside the cycle, and the flag is
  set exactly while one is.
\<close>

lemma system_step_guard:
  assumes "\<forall>i j. in_cycle (pcs i) \<and> in_cycle (pcs j) \<longrightarrow> i = j"
    and "isRunning s \<longleftrightarrow> (\<exists>i. in_cycle (pcs i))"
    and "system_step cfg ev (pcs, s, w) = (pcs', s', w')"
  shows "(\<forall>i j. in_cycle (pcs' i) \<and> in_cycle (pcs' j) \<longrightarrow> i = j)
       \<and> (isRunning s' \<longleftrightarrow> (\<exists>i. in_cycle (pcs' i)))"
proof (cases "pcs (ev_task ev)")
  case Start
  show ?thesis
  proof (cases "isRunning s")
    case True
    with Start assms(3) have p: "pcs' = pcs(ev_task ev := Done Skipped)" and s: "s' = s"
      by (auto simp: system_step_def)
    from True assms(2) obtain i where i: "in_cycle (pcs i)" by blast
    with Start have "i \<noteq> ev_task ev" by auto
    with i have "\<exists>i. in_cycle (pcs' i)" unfolding p by auto
    moreover from assms(1) have "\<forall>i j. in_cycle (pcs' i) \<and> in_cycle (pcs' j) \<longrightarrow> i = j"
      unfolding p by (auto split: if_splits)
    ultimately show ?thesis using True s by simp
  next
    case False
    with assms(2) have none: "\<And>i. \<not> in_cycle (pcs i)" by blast
    from Start False assms(3) have p: "pcs' = pcs(ev_task ev := AwaitRows)" and s: "isRunning s'"
      by (auto simp: system_step_def)
    from none show ?thesis unfolding p using s by (auto split: if_splits)
  qed
next
  case AwaitRows
  then have me: "in_cycle (pcs (ev_task ev))" by simp
  with assms(1) have only: "\<And>i. in_cycle (pcs i) \<Longrightarrow> i = ev_task ev" by blast
  from me assms(2) have run: "isRunning s" by blast
  show ?thesis
  proof (cases "ev_fault ev")
    case None
    with AwaitRows assms(3) have "pcs' = pcs(ev_task ev := Loop (filter is_active (integrations w)))"
      and "s' = s"
      by (auto simp: system_step_def)
    with only run show ?thesis by (auto split: if_splits)
  next
    case (Some e)
    with AwaitRows assms(3) have "pcs' = pcs(ev_task ev := Done (CycleError e))"
      and "\<not> isRunning s'"
      by (auto simp: system_step_def)
    with only show ?thesis by (auto split: if_splits)
  qed
next
  case (Loop rows)
  then have me: "in_cycle (pcs (ev_task ev))" by simp
  with assms(1) have only: "\<And>i. in_cycle (pcs i) \<Longrightarrow> i = ev_task ev" by blast
  from me assms(2) have run: "isRunning s" by blast
  show ?thesis
  proof (cases rows)
    case Nil
    with Loop assms(3) have "pcs' = pcs(ev_task ev := Done Completed)" and "\<not> isRunning s'"
      by (auto simp: system_step_def)
    with only show ?thesis by (auto split: if_splits)
  next
    case (Cons integ rest)
    with Loop assms(3) have "pcs' = pcs(ev_task ev := Loop rest)" and "s' = s"
      by (auto simp: system_step_def)
    with only run show ?thesis by (auto split: if_splits)
  qed
next
  case (Done out)
  with assms(3) have "pcs' = pcs(ev_task ev := Done out)" and "s' = s"
    by (auto simp: system_step_def)
  with Done have "pcs' = pcs" by auto
  with \<open>s' = s\<close> assms(1,2) show ?thesis by simp
qed

lemma run_schedule_guard:
  assumes "\<forall>i j. in_cycle (pcs i) \<and> in_cycle (pcs j) \<longrightarrow> i = j"
    and "isRunning s \<longleftrightarrow> (\<exists>i. in_cycle (pcs i))"
    and "run_schedule cfg evs (pcs, s, w) = (pcs', s', w')"
  shows "(\<forall>i j. in_cycle (pcs' i) \<and> in_cycle (pcs' j) \<longrightarrow> i = j)
       \<and> (isRunning s' \<longleftrightarrow> (\<exists>i. in_cycle (pcs' i)))"
  using assms
proof (induction evs arbitrary: pcs s w)
  case Nil
  then show ?case by simp
next
  case (Cons ev evs)
  obtain pcs1 s1 w1 where st: "system_step cfg ev (pcs, s, w) = (pcs1, s1, w1)"
    by (cases "system_step cfg ev (pcs, s, w)")
  from system_step_guard [OF Cons.prems(1,2) st]
  have "\<forall>i j. in_cycle (pcs1 i) \<and> in_cycle (pcs1 j) \<longrightarrow> i = j"
    and "isRunning s1 \<longleftrightarrow> (\<exists>i. in_cycle (pcs1 i))"
    by blast+
  moreover from Cons.prems(3) st have "run_schedule cfg evs (pcs1, s1, w1) = (pcs', s', w')"
    by simp
  ultimately show ?case by (rule Cons.IH)
qed

lemma done_stays:
  "pcs k = Done out \<Longrightarrow> fst (run_schedule cfg evs (pcs, s, w)) k = Done out"
proof (induction evs arbitrary: pcs s w)
  case Nil
  then show ?case by simp
next
  case (Cons ev evs)
  obtain pcs1 s1 w1 where st: "system_step cfg ev (pcs, s, w) = (pcs1, s1, w1)"
    by (cases "system_step cfg ev (pcs, s, w)")
  with Cons.prems have "pcs1 k = Done out"
    by (cases "ev_task ev = k") (auto simp: system_step_def split: prod.splits)
  with Cons.IH [of pcs1 s1 w1] st show ?case by simp
qed

text \<open>
  An invocation that is let run alone until it returns ends as \<open>run_cycle\<close> says, so
  \<open>refreshAllTokens\<close> is the schedule in which one invocation is never interrupted.
\<close>

lemma schedule_one_more:
  assumes "pcs (ev_task ev) = p"
    and "cycle_step cfg (ev_endpoint ev) (ev_now ev) (ev_fault ev) (p, s, w) = (p', s', w')"
    and "\<exists>n. run_schedule cfg (replicate n ev) (pcs(ev_task ev := p'), s', w') =
           (pcs(ev_task ev := p', ev_task ev := q), r)"
  shows "\<exists>n. run_schedule cfg (replicate n ev) (pcs, s, w) = (pcs(ev_task ev := q), r)"
proof -
  from assms(3) obtain n where
    "run_schedule cfg (replicate n ev) (pcs(ev_task ev := p'), s', w') = (pcs(ev_task ev := q), r)"
    by auto
  with assms(1,2) have "run_schedule cfg (replicate (Suc n) ev) (pcs, s, w) = (pcs(ev_task ev := q), r)"
    by (simp add: system_step_def)
  then show ?thesis by blast
qed

lemma run_cycle_as_schedule:
  "pcs (ev_task ev) = p \<Longrightarrow>
   \<exists>n. run_schedule cfg (replicate n ev) (pcs, s, w) =
     (pcs(ev_task ev := Done (fst (run_cycle cfg (ev_endpoint ev) (ev_now ev) (ev_fault ev) (p, s, w)))),
      snd (run_cycle cfg (ev_endpoint ev) (ev_now ev) (ev_fault ev) (p, s, w)))"
proof (induction cfg "ev_endpoint ev" "ev_now ev" "ev_fault ev" "(p, s, w)"
         arbitrary: pcs p s w rule: run_cycle.induct)
  case (1 cfg out s w)
  then have "pcs(ev_task ev := Done out) = pcs" by auto
  then have "run_schedule cfg (replicate 0 ev) (pcs, s, w) =
     (pcs(ev_task ev := Done (fst (run_cycle cfg (ev_endpoint ev) (ev_now ev) (ev_fault ev) (Done out, s, w)))),
      snd (run_cycle cfg (ev_endpoint ev) (ev_now ev) (ev_fault ev) (Done out, s, w)))"
    by simp
  then show ?case by blast
next
  case (2 cfg s w)
  obtain p' s' w' where st: "cycle_step cfg (ev_endpoint ev) (ev_now ev) (ev_fault ev) (Start, s, w) = (p', s', w')"
    by (cases "cycle_step cfg (ev_endpoint ev) (ev_now ev) (ev_fault ev) (Start, s, w)")
  have ih: "\<exists>n. run_schedule cfg (replicate n ev) (pcs(ev_task ev := p'), s', w') =
     (pcs(ev_task ev := p', ev_task ev := Done (fst (run_cycle cfg (ev_endpoint ev) (ev_now ev) (ev_fault ev) (p', s', w')))),
      snd (run_cycle cfg (ev_endpoint ev) (ev_now ev) (ev_fault ev) (p', s', w')))"
    by (rule 2(1) [OF st, of "pcs(ev_task ev := p')"]) simp
  have unfold: "run_cycle cfg (ev_endpoint ev) (ev_now ev) (ev_fault ev) (Start, s, w) =
      run_cycle cfg (ev_endpoint ev) (ev_now ev) (ev_fault ev) (p', s', w')"
    by (simp only: run_cycle.simps st)
  show ?case
    unfolding unfold
    by (rule schedule_one_more [where p = "Start" and p' = p' and s' = s' and w' = w'], rule 2(2), rule st, rule ih)
next
  case (3 cfg s w)
  obtain p' s' w' where st: "cycle_step cfg (ev_endpoint ev) (ev_now ev) (ev_fault ev) (AwaitRows, s, w) = (p', s', w')"
    by (cases "cycle_step cfg (ev_endpoint ev) (ev_now ev) (ev_fault ev) (AwaitRows, s, w)")
  have ih: "\<exists>n. run_schedule cfg (replicate n ev) (pcs(ev_task ev := p'), s', w') =
     (pcs(ev_task ev := p', ev_task ev := Done (fst (run_cycle cfg (ev_endpoint ev) (ev_now ev) (ev_fault ev) (p', s', w')))),
      snd (run_cycle cfg (ev_endpoint ev) (ev_now ev) (ev_fault ev) (p', s', w')))"
    by (rule 3(1) [OF st, of "pcs(ev_task ev := p')"]) simp
  have unfold: "run_cycle cfg (ev_endpoint ev) (ev_now ev) (ev_fault ev) (AwaitRows, s, w) =
      run_cycle cfg (ev_endpoint ev) (ev_now ev) (ev_fault ev) (p', s', w')"
    by (simp only: run_cycle.simps st)
  show ?case
    unfolding unfold
    by (rule schedule_one_more [where p = "AwaitRows" and p' = p' and s' = s' and w' = w'], rule 3(2), rule st, rule ih)
next
  case (4 cfg s w)
  obtain p' s' w' where st: "cycle_step cfg (ev_endpoint ev) (ev_now ev) (ev_fault ev) (Loop [], s, w) = (p', s', w')"
    by (cases "cycle_step cfg (ev_endpoint ev) (ev_now ev) (ev_fault ev) (Loop [], s, w)")
  have ih: "\<exists>n. run_schedule cfg (replicate n ev) (pcs(ev_task ev := p'), s', w') =
     (pcs(ev_task ev := p', ev_task ev := Done (fst (run_cycle cfg (ev_endpoint ev) (ev_now ev) (ev_fault ev) (p', s', w')))),
      snd (run_cycle cfg (ev_endpoint ev) (ev_now ev) (ev_fault ev) (p', s', w')))"
    by (rule 4(1) [OF st, of "pcs(ev_task ev := p')"]) simp
  have unfold: "run_cycle cfg (ev_endpoint ev) (ev_now ev) (ev_fault ev) (Loop [], s, w) =
      run_cycle cfg (ev_endpoint ev) (ev_now ev) (ev_fault ev) (p', s', w')"
    by (simp only: run_cycle.simps st)
  show ?case
    unfolding unfold
    by (rule schedule_one_more [where p = "Loop []" and p' = p' and s' = s' and w' = w'], rule 4(2), rule st, rule ih)
next
  case (5 cfg integ rest s w)
  obtain p' s' w' where st: "cycle_step cfg (ev_endpoint ev) (ev_now ev) (ev_fault ev) (Loop (integ # rest), s, w) = (p', s', w')"
    by (cases "cycle_step cfg (ev_endpoint ev) (ev_now ev) (ev_fault ev) (Loop (integ # rest), s, w)")
  have ih: "\<exists>n. run_schedule cfg (replicate n ev) (pcs(ev_task ev := p'), s', w') =
     (pcs(ev_task ev := p', ev_task ev := Done (fst (run_cycle cfg (ev_endpoint ev) (ev_now ev) (ev_fault ev) (p', s', w')))),
      snd (run_cycle cfg (ev_endpoint ev) (ev_now ev) (ev_fault ev) (p', s', w')))"
    by (rule 5(1) [OF st, of "pcs(ev_task ev := p')"]) simp
  have unfold: "run_cycle cfg (ev_endpoint ev) (ev_now ev) (ev_fault ev) (Loop (integ # rest), s, w) =
      run_cycle cfg (ev_endpoint ev) (ev_now ev) (ev_fault ev) (p', s', w')"
    by (simp only: run_cycle.simps st)
  show ?case
    unfolding unfold
    by (rule schedule_one_more [where p = "Loop (integ # rest)" and p' = p' and s' = s' and w' = w'], rule 5(2), rule st, rule ih)
qed

lemma refreshAllTokens_as_schedule:
  assumes "pcs (ev_task ev) = Start"
  shows "\<exists>n. run_schedule cfg (replicate n ev) (pcs, s, w) =
     (pcs(ev_task ev := Done (fst (refreshAllTokens cfg (ev_endpoint ev) (ev_now ev) (ev_fault ev) (s, w)))),
      snd (refreshAllTokens cfg (ev_endpoint ev) (ev_now ev) (ev_fault ev) (s, w)))"
  using run_cycle_as_schedule [where pcs = pcs and ev = ev and p = Start, OF assms]
  by (simp add: refreshAllTokens_def)

text \<open>
  C8. Take any interleaving of any number of invocations of \<^verbatim>\<open>refreshAllTokens\<close> on one
  scheduler whose flag is down at first. At every moment at most one invocation is
  inside the cycle, and the flag is set exactly while one is: it is raised by the
  invocation that passes the guard and cleared when that invocation finishes, by
  completion or by error. An invocation that starts while another is inside the cycle
  returns at once, leaving scheduler and store as they are, and stays returned whatever
  runs afterwards. Run without interleaving, an invocation that finds the flag set is
  skipped with nothing changed, and one that finds it down is not skipped and ends with
  the flag down.
\<close>

theorem C8_reentrancy_guard:
  assumes "\<not> isRunning s0"
    and "run_schedule cfg evs (\<lambda>k. Start, s0, w0) = (pcs, s, w)"
  shows "(\<forall>i j. in_cycle (pcs i) \<and> in_cycle (pcs j) \<longrightarrow> i = j)
       \<and> (isRunning s \<longleftrightarrow> (\<exists>i. in_cycle (pcs i)))
       \<and> (\<forall>i ev. in_cycle (pcs i) \<and> pcs (ev_task ev) = Start \<longrightarrow>
             system_step cfg ev (pcs, s, w) = (pcs(ev_task ev := Done Skipped), s, w))
       \<and> (\<forall>k more. pcs k = Done Skipped \<longrightarrow>
             fst (run_schedule cfg more (pcs, s, w)) k = Done Skipped)
       \<and> (isRunning s \<longrightarrow> refreshAllTokens cfg endpoint now fault (s, w) = (Skipped, s, w))
       \<and> (\<not> isRunning s \<longrightarrow>
             fst (refreshAllTokens cfg endpoint now fault (s, w)) \<noteq> Skipped
           \<and> \<not> isRunning (fst (snd (refreshAllTokens cfg endpoint now fault (s, w)))))"
proof -
  have "\<forall>i j. in_cycle ((\<lambda>k. Start) i) \<and> in_cycle ((\<lambda>k. Start) j) \<longrightarrow> i = j"
    and "isRunning s0 \<longleftrightarrow> (\<exists>i. in_cycle ((\<lambda>k. Start) i))"
    using assms(1) by simp_all
  from run_schedule_guard [OF this assms(2)]
  have one: "\<forall>i j. in_cycle (pcs i) \<and> in_cycle (pcs j) \<longrightarrow> i = j"
    and flag: "isRunning s \<longleftrightarrow> (\<exists>i. in_cycle (pcs i))"
    by blast+
  have skip: "\<forall>i ev. in_cycle (pcs i) \<and> pcs (ev_task ev) = Start \<longrightarrow>
             system_step cfg ev (pcs, s, w) = (pcs(ev_task ev := Done Skipped), s, w)"
  proof (intro allI impI)
    fix i and ev :: event
    assume a: "in_cycle (pcs i) \<and> pcs (ev_task ev) = Start"
    with flag have "isRunning s" by blast
    with a show "system_step cfg ev (pcs, s, w) = (pcs(ev_task ev := Done Skipped), s, w)"
      by (simp add: system_step_def)
  qed
  have stay: "\<forall>k more. pcs k = Done Skipped \<longrightarrow>
             fst (run_schedule cfg more (pcs, s, w)) k = Done Skipped"
    by (simp add: done_stays)
  have big: "isRunning s \<longrightarrow> refreshAllTokens cfg endpoint now fault (s, w) = (Skipped, s, w)"
    by (simp add: refreshAllTokens_unfold)
  have fin: "\<not> isRunning s \<longrightarrow>
             fst (refreshAllTokens cfg endpoint now fault (s, w)) \<noteq> Skipped
           \<and> \<not> isRunning (fst (snd (refreshAllTokens cfg endpoint now fault (s, w))))"
    by (simp add: refreshAllTokens_unfold split: option.splits)
  from one flag skip stay big fin show ?thesis by blast
qed

text \<open>
  C8 at the demo store: a first invocation passes the guard and is suspended, a second
  one starts meanwhile and is skipped.
\<close>

theorem C8_reentrancy_guard_witness:
  "\<not> isRunning \<lparr>isRunning = False\<rparr>
   \<and> run_schedule demo_config [tick 0, tick 1] (\<lambda>k. Start, \<lparr>isRunning = False\<rparr>, demo_world)
       = ((\<lambda>k. Start)(0 := AwaitRows, 1 := Done Skipped), \<lparr>isRunning = True\<rparr>, demo_world)
   \<and> refreshAllTokens demo_config always_rejects 1000 None (\<lparr>isRunning = True\<rparr>, demo_world)
       = (Skipped, \<lparr>isRunning = True\<rparr>, demo_world)"
proof -
  have f: "\<not> isRunning \<lparr>isRunning = False\<rparr>" by simp
  have r: "run_schedule demo_config [tick 0, tick 1] (\<lambda>k. Start, \<lparr>isRunning = False\<rparr>, demo_world)
       = ((\<lambda>k. Start)(0 := AwaitRows, 1 := Done Skipped), \<lparr>isRunning = True\<rparr>, demo_world)"
    by (simp add: system_step_def tick_def)
  from C8_reentrancy_guard [OF f r, where endpoint = always_rejects and now = 1000 and fault = None]
  have "refreshAllTokens demo_config always_rejects 1000 None (\<lparr>isRunning = True\<rparr>, demo_world)
       = (Skipped, \<lparr>isRunning = True\<rparr>, demo_world)"
    by simp
  with f r show ?thesis by simp
qed

section \<open>Failure isolation in the comprehensive sync\<close>

lemma say_fields:
  "tables (say l db) = tables db" "rowseq (say l db) = rowseq db"
  "console (say l db) = console db @ [l]"
  by (simp_all add: say_def)

lemma info_labels_append: "info_labels (xs @ ys) = info_labels xs @ info_labels ys"
  by (induction xs rule: info_labels.induct) simp_all

lemma started_say:
  "started (say (Info l) db) = started db @ [l]"
  "started (say (Synced l n) db) = started db"
  "started (say (Warn l e) db) = started db"
  "started (say (Fatal e) db) = started db"
  by (simp_all add: started_def say_def info_labels_append)

lemma console_insert_or_replace:
  "console (insert_or_replace sch t i k scope dat now db) = console db"
  by (simp add: insert_or_replace_def Let_def)

lemma console_upsert_all: "console (upsert_all env t i scope xs db) = console db"
  by (induction xs arbitrary: db) (simp_all add: console_insert_or_replace)

lemma started_upsert_all: "started (upsert_all env t i scope xs db) = started db"
  by (simp add: started_def console_upsert_all)

lemma started_sync_each:
  "started (snd (sync_each t label path env i ks n db)) = started db"
  by (induction ks arbitrary: n db)
     (simp_all add: started_say started_upsert_all split: sum.splits)

lemma step_sync_collection:
  "fst (sync_collection t label endpoint env i db) = request_error env endpoint
   \<and> started (snd (sync_collection t label endpoint env i db)) = started db @ [label]"
  by (simp add: sync_collection_def request_error_def Let_def started_say started_upsert_all
        split: sum.splits)

lemma step_sync_collection_guarded:
  "fst (sync_collection_guarded t label endpoint env i db) = None
   \<and> started (snd (sync_collection_guarded t label endpoint env i db)) = started db @ [label]"
  by (simp add: sync_collection_guarded_def Let_def started_say started_upsert_all
        split: sum.splits)

lemma step_sync_scoped:
  "fst (sync_scoped t label parent path env i db) = None
   \<and> started (snd (sync_scoped t label parent path env i db)) = started db @ [label]"
  by (simp add: sync_scoped_def Let_def started_say started_sync_each)

lemma step_syncLabels:
  "fst (syncLabels env i db) = None
   \<and> started (snd (syncLabels env i db)) = started db @ [''labels'']"
  by (simp add: syncLabels_def Let_def started_say started_upsert_all split: sum.splits)

lemma step_syncWorkflows:
  "fst (syncWorkflows env i db) = None
   \<and> started (snd (syncWorkflows env i db)) = started db @ [''workflows'']"
  by (simp add: syncWorkflows_def Let_def started_say started_upsert_all split: sum.splits)

lemma started_sync_issues_each:
  "started (snd (sync_issues_each env i ks n db)) = started db"
  by (induction ks arbitrary: n db)
     (simp_all add: started_say split: sum.splits list.splits)

lemma step_syncIssuesComprehensive:
  "fst (syncIssuesComprehensive env i db) = None
   \<and> started (snd (syncIssuesComprehensive env i db)) = started db @ [''issues'']"
  by (simp add: syncIssuesComprehensive_def Let_def started_say started_sync_issues_each)

lemma run_steps_plan:
  assumes "list_all2 (\<lambda>step cl. \<forall>db. fst (step db) = fst cl
                       \<and> started (snd (step db)) = started db @ [snd cl]) steps plan"
  shows "fst (run_steps steps db) = first_some (map fst plan)
       \<and> started (snd (run_steps steps db)) = started db @ through_first_failure plan"
  using assms
proof (induction steps plan arbitrary: db rule: list_all2_induct)
  case Nil
  then show ?case by simp
next
  case (Cons step steps cl plan)
  obtain c l where cl: "cl = (c, l)" by (cases cl)
  obtain r db' where s: "step db = (r, db')" by (cases "step db")
  from Cons.hyps(1) cl s have r: "r = c" and d: "started db' = started db @ [l]"
    by (metis fst_conv, metis snd_conv)
  show ?case
  proof (cases c)
    case None
    with Cons.IH [of db'] cl s r d show ?thesis by simp
  next
    case (Some e)
    with cl s r d show ?thesis by simp
  qed
qed

text \<open>
  C1 (as amended). Whatever the other endpoints answer, \<^verbatim>\<open>syncAllData\<close> throws exactly
  when a request of one of the six steps without a \<^verbatim>\<open>try\<close> of their own (projects,
  issue types, priorities, statuses, resolutions, issue fields) is rejected, and it
  throws the error of the first such step; a rejected request in any other step is
  caught inside that step and the run goes on with the next step. The steps that are
  started are exactly those up to and including the first of the six that fails, in
  order; when none of the six fails, all twenty are started and the run logs its
  completion.
\<close>

theorem C1_run_fails_iff_unguarded_step_fails:
  "fst (syncAllData env i db) = first_error env unguarded_endpoints
   \<and> started (snd (syncAllData env i db)) =
       started db @ [''Starting comprehensive Jira data sync...'']
         @ through_first_failure (step_plan env)
         @ (if first_error env unguarded_endpoints = None
            then [''Comprehensive Jira data sync completed successfully!''] else [])"
proof -
  let ?steps = "[syncProjects env i, syncIssueTypes env i, syncPriorities env i,
              syncStatuses env i, syncResolutions env i, syncUsers env i,
              syncGroups env i, syncIssueFields env i, syncLabels env i,
              syncComponents env i, syncVersions env i, syncWorkflows env i,
              syncDashboards env i, syncFilters env i, syncPermissions env i,
              syncIssuesComprehensive env i, syncIssueComments env i,
              syncIssueWorklogs env i, syncIssueAttachments env i, syncIssueLinks env i]"
  let ?db0 = "say (Info ''Starting comprehensive Jira data sync...'') db"
  have "list_all2 (\<lambda>step cl. \<forall>db. fst (step db) = fst cl
                       \<and> started (snd (step db)) = started db @ [snd cl]) ?steps (step_plan env)"
    by (simp add: step_plan_def step_sync_collection step_sync_collection_guarded
          step_sync_scoped step_syncLabels step_syncWorkflows step_syncIssuesComprehensive
          syncProjects_def syncIssueTypes_def syncPriorities_def syncStatuses_def
          syncResolutions_def syncIssueFields_def syncUsers_def syncGroups_def
          syncComponents_def syncVersions_def syncDashboards_def syncFilters_def
          syncPermissions_def syncIssueComments_def
          syncIssueWorklogs_def syncIssueAttachments_def syncIssueLinks_def)
  then have run: "fst (run_steps ?steps ?db0) = first_some (map fst (step_plan env))"
    "started (snd (run_steps ?steps ?db0)) = started ?db0 @ through_first_failure (step_plan env)"
    using run_steps_plan [of ?steps "step_plan env" ?db0] by simp_all
  have plan: "first_some (map fst (step_plan env)) = first_error env unguarded_endpoints"
    by (cases "request_error env ''/project''"; cases "request_error env ''/issuetype''";
        cases "request_error env ''/priority''"; cases "request_error env ''/status''";
        cases "request_error env ''/resolution''"; cases "request_error env ''/field''")
       (simp_all add: step_plan_def first_error_def unguarded_endpoints_def)
  obtain r db' where rs: "run_steps ?steps ?db0 = (r, db')" by (cases "run_steps ?steps ?db0")
  with run plan have r: "r = first_error env unguarded_endpoints"
    and d: "started db' = started db @ [''Starting comprehensive Jira data sync...'']
              @ through_first_failure (step_plan env)"
    by (simp_all add: started_say)
  have u: "syncAllData env i db =
      (case r of Some e \<Rightarrow> (Some e, say (Fatal e) db')
       | None \<Rightarrow> (None, say (Info ''Comprehensive Jira data sync completed successfully!'') db'))"
    unfolding syncAllData_def rs by (cases r) simp_all
  show ?thesis
  proof (cases r)
    case None
    with r have "first_error env unguarded_endpoints = None" by simp
    with u None d show ?thesis by (simp add: started_say)
  next
    case (Some e)
    with r have "first_error env unguarded_endpoints = Some e" by simp
    with u Some d show ?thesis by (simp add: started_say)
  qed
qed

text \<open>
  The amended C1 on an upstream that answers 403 on every endpoint but those of the six
  unguarded steps: the run completes.
\<close>

theorem C1_run_fails_iff_unguarded_step_fails_witness:
  "fst (syncAllData only_core_up 1 empty_store) = None
   \<and> started (snd (syncAllData only_core_up 1 empty_store)) =
       [''Starting comprehensive Jira data sync...'',
        ''projects'', ''issue types'', ''priorities'', ''statuses'', ''resolutions'',
        ''users'', ''groups'', ''issue fields'', ''labels'', ''components'', ''versions'',
        ''workflows'', ''dashboards'', ''filters'', ''permissions'', ''issues'',
        ''issue comments'', ''issue worklogs'', ''issue attachments'', ''issue links'',
        ''Comprehensive Jira data sync completed successfully!'']"
proof -
  have r: "request_error only_core_up ''/project'' = None"
    "request_error only_core_up ''/issuetype'' = None"
    "request_error only_core_up ''/priority'' = None"
    "request_error only_core_up ''/status'' = None"
    "request_error only_core_up ''/resolution'' = None"
    "request_error only_core_up ''/field'' = None"
    by (simp_all add: request_error_def makeRequest_def only_core_up_def unguarded_endpoints_def)
  have f: "first_error only_core_up unguarded_endpoints = None"
    by (simp add: first_error_def unguarded_endpoints_def r)
  have p: "through_first_failure (step_plan only_core_up) =
       [''projects'', ''issue types'', ''priorities'', ''statuses'', ''resolutions'',
        ''users'', ''groups'', ''issue fields'', ''labels'', ''components'', ''versions'',
        ''workflows'', ''dashboards'', ''filters'', ''permissions'', ''issues'',
        ''issue comments'', ''issue worklogs'', ''issue attachments'', ''issue links'']"
    by (simp add: step_plan_def r)
  have s: "started empty_store = []"
    by (simp add: started_def empty_store_def)
  from C1_run_fails_iff_unguarded_step_fails [of only_core_up 1 empty_store]
  show ?thesis by (simp add: f p s)
qed

lemma priorities_down_requests:
  "makeRequest priorities_down ''/project'' = Inr []"
  "makeRequest priorities_down ''/issuetype'' = Inr []"
  "makeRequest priorities_down ''/priority'' = Inl (JiraApiError 500 ''boom'')"
  by (simp_all add: makeRequest_def priorities_down_def)

text \<open>
  C1 as stated fails on an upstream whose \<^verbatim>\<open>/priority\<close> endpoint answers 500: the
  exception of \<^verbatim>\<open>syncPriorities\<close> leaves \<^verbatim>\<open>syncAllData\<close>, and no step after
  priorities is started.
\<close>

theorem C1_priorities_counterexample:
  "syncAllData priorities_down 1 empty_store =
     (Some (JiraApiError 500 ''boom''),
      empty_store\<lparr>console :=
        [Info ''Starting comprehensive Jira data sync...'',
         Info ''projects'', Synced ''projects'' 0,
         Info ''issue types'', Synced ''issue types'' 0,
         Info ''priorities'',
         Fatal (JiraApiError 500 ''boom'')]\<rparr>)"
proof -
  have 1: "syncProjects priorities_down i db =
            (None, say (Synced ''projects'' 0) (say (Info ''projects'') db))" for db i
    by (simp add: syncProjects_def sync_collection_def priorities_down_requests)
  have 2: "syncIssueTypes priorities_down i db =
            (None, say (Synced ''issue types'' 0) (say (Info ''issue types'') db))" for db i
    by (simp add: syncIssueTypes_def sync_collection_def priorities_down_requests)
  have 3: "syncPriorities priorities_down i db =
            (Some (JiraApiError 500 ''boom''), say (Info ''priorities'') db)" for db i
    by (simp add: syncPriorities_def sync_collection_def priorities_down_requests)
  show ?thesis
    by (simp add: syncAllData_def 1 2 3 say_def empty_store_def)
qed

section \<open>Re-ingestion\<close>

text \<open>
  Where the table declares no UNIQUE constraint, every inserted item adds a row, whatever
  the table held; where it declares one, key pairs that were distinct stay distinct.
\<close>

lemma insert_or_replace_appends:
  "\<not> sch t \<Longrightarrow>
     map (\<lambda>r. (er_integration r, er_key r)) (tables (insert_or_replace sch t i k scope dat now db) t)
       = map (\<lambda>r. (er_integration r, er_key r)) (tables db t) @ [(i, k)]"
  by (simp add: insert_or_replace_def Let_def)

lemma upsert_all_appends:
  "\<not> schema_of env t \<Longrightarrow>
     map (\<lambda>r. (er_integration r, er_key r)) (tables (upsert_all env t i scope xs db) t)
       = map (\<lambda>r. (er_integration r, er_key r)) (tables db t) @ map (\<lambda>x. (i, re_key x)) xs"
  by (induction xs arbitrary: db) (simp_all add: insert_or_replace_appends)

lemma insert_or_replace_keeps_keys_distinct:
  assumes "sch t" and "distinct (map (\<lambda>r. (er_integration r, er_key r)) (tables db t))"
  shows "distinct (map (\<lambda>r. (er_integration r, er_key r))
           (tables (insert_or_replace sch t i k scope dat now db) t))"
proof -
  have "distinct (map (\<lambda>r. (er_integration r, er_key r))
          (filter (\<lambda>r. \<not> (er_integration r = i \<and> er_key r = k)) (tables db t)))"
    using assms(2) by (rule distinct_map_filter)
  with assms(1) show ?thesis
    by (auto simp: insert_or_replace_def Let_def)
qed

lemma upsert_all_keeps_keys_distinct:
  assumes "schema_of env t" and "distinct (map (\<lambda>r. (er_integration r, er_key r)) (tables db t))"
  shows "distinct (map (\<lambda>r. (er_integration r, er_key r)) (tables (upsert_all env t i scope xs db) t))"
  using assms(2)
proof (induction xs arbitrary: db)
  case Nil
  then show ?case by simp
next
  case (Cons x xs)
  from assms(1) Cons.prems
  have "distinct (map (\<lambda>r. (er_integration r, er_key r))
          (tables (insert_or_replace (schema_of env) t i (re_key x) scope (re_body x) (clock env) db) t))"
    by (rule insert_or_replace_keeps_keys_distinct)
  then show ?case by (simp add: Cons.IH)
qed

lemma one_project_run:
  "tables (snd (syncProjects (one_project_upstream sch) i db)) =
     (tables db)(Projects :=
        (if sch Projects
         then filter (\<lambda>r. \<not> (er_integration r = i \<and> er_key r = ''P'')) (tables db Projects)
         else tables db Projects) @
        [\<lparr>er_id = Suc (rowseq db Projects), er_integration = i, er_key = ''P'',
          er_scope = None, er_data = ''Project P'', er_updated_at = 0\<rparr>])"
proof -
  have m: "makeRequest (one_project_upstream sch) ''/project'' =
             Inr [\<lparr>re_key = ''P'', re_labels = [], re_body = ''Project P''\<rparr>]"
    by (simp add: makeRequest_def one_project_upstream_def)
  have e: "schema_of (one_project_upstream sch) = sch" "clock (one_project_upstream sch) = 0"
    by (simp_all add: one_project_upstream_def)
  show ?thesis
    by (simp add: syncProjects_def sync_collection_def Let_def m e insert_or_replace_def
          say_fields)
qed

text \<open>
  The issue step itself stores nothing, since its INSERT is rejected: whatever the
  upstream returns, every table is as it was.
\<close>

lemma tables_sync_issues_each:
  "tables (snd (sync_issues_each env i ks n db)) = tables db"
  by (induction ks arbitrary: n db) (simp_all add: say_fields split: sum.splits list.splits)

lemma syncIssuesComprehensive_stores_nothing:
  "tables (snd (syncIssuesComprehensive env i db)) = tables db"
  by (simp add: syncIssuesComprehensive_def Let_def say_fields tables_sync_issues_each)

text \<open>
  C2, evaluated on the code. With the tables of \<^verbatim>\<open>initDatabase\<close>, a first
  \<^verbatim>\<open>syncProjects\<close> of integration 1 stores project \<^verbatim>\<open>P\<close> once, and a second one of
  the same upstream stores it again: two rows share the key triple. With the UNIQUE
  constraint of src/setup-database-clean.js on the table, the second sync replaces the
  row. \<^verbatim>\<open>syncIssuesComprehensive\<close> leaves every table as it was, whatever the
  upstream and the schema: its INSERT is rejected.
\<close>

theorem C2_second_sync_duplicates:
  "key_triples Projects (snd (syncProjects (one_project_upstream database_js_schema) 1
       empty_store)) = [(1, Projects, ''P'')]
   \<and> key_triples Projects (sync_projects_twice database_js_schema)
       = [(1, Projects, ''P''), (1, Projects, ''P'')]
   \<and> \<not> distinct (key_triples Projects (sync_projects_twice database_js_schema))
   \<and> key_triples Projects (sync_projects_twice unique_keys_schema) = [(1, Projects, ''P'')]
   \<and> tables (snd (syncIssuesComprehensive env i db)) = tables db"
proof -
  have i0: "tables empty_store Projects = []"
    by (simp add: empty_store_def)
  have "key_triples Projects (snd (syncProjects (one_project_upstream database_js_schema) 1
       empty_store)) = [(1, Projects, ''P'')]
   \<and> key_triples Projects (sync_projects_twice database_js_schema)
       = [(1, Projects, ''P''), (1, Projects, ''P'')]
   \<and> \<not> distinct (key_triples Projects (sync_projects_twice database_js_schema))
   \<and> key_triples Projects (sync_projects_twice unique_keys_schema) = [(1, Projects, ''P'')]"
    unfolding key_triples_def sync_projects_twice_def one_project_run
    by (simp add: i0 database_js_schema_def unique_keys_schema_def)
  moreover have "tables (snd (syncIssuesComprehensive env i db)) = tables db"
    by (rule syncIssuesComprehensive_stores_nothing)
  ultimately show ?thesis by blast
qed

section \<open>Pagination of the issue search\<close>

lemma upsert_issue_unique: "sch Issues \<Longrightarrow> fst (upsert_issue sch i p now issue db) = None"
  by (simp add: upsert_issue_def)

lemma upsert_issues_unique: "sch Issues \<Longrightarrow> fst (upsert_issues sch i p now issues db) = None"
proof (induction issues arbitrary: db)
  case Nil
  then show ?case by simp
next
  case (Cons issue issues)
  from Cons.prems have "fst (upsert_issue sch i p now issue db) = None"
    by (rule upsert_issue_unique)
  with Cons.IH Cons.prems show ?case
    by (cases "upsert_issue sch i p now issue db") simp
qed

lemma sync_pages_same_page_forever:
  assumes "sch Issues"
    and "\<And>startAt. getIssues search cloudId projectKey startAt maxResults = Inr page"
    and "length page = maxResults"
  shows "sync_pages fuel search sch now i p cloudId projectKey startAt tot calls db = None"
proof (induction fuel arbitrary: startAt tot calls db)
  case 0
  then show ?case by simp
next
  case (Suc fuel)
  from assms(1) have "fst (upsert_issues sch i p now page db) = None"
    by (rule upsert_issues_unique)
  then obtain db' where u: "upsert_issues sch i p now page db = (None, db')"
    by (cases "upsert_issues sch i p now page db") simp
  from assms(3) have "length page \<noteq> 0" "\<not> length page < maxResults"
    by (simp_all add: maxResults_def)
  with assms(2) u Suc.IH show ?case by simp
qed

text \<open>
  C6, evaluated on the code. The request of \<^verbatim>\<open>getIssues\<close> is the same for every
  \<^verbatim>\<open>startAt\<close>. Against a search that pages by offset over 101 issues (100 on page 1,
  1 on page 2), \<^verbatim>\<open>syncIssuesToDatabase\<close> receives page 1 on every fetch: on a store
  whose issue table has the UNIQUE constraint the loop does not end, whatever the fuel;
  on the tables of \<^verbatim>\<open>initDatabase\<close> the first insert is rejected and the run ends
  with that exception after one fetch.
\<close>

theorem C6_offset_never_sent:
  "(\<forall>startAt. getIssues search cloudId projectKey startAt m = getIssues search cloudId projectKey 0 m)
   \<and> length (take maxResults (drop 0 issues_101)) = maxResults
   \<and> length (take maxResults (drop maxResults issues_101)) = 1
   \<and> (\<forall>fuel. syncIssuesToDatabase fuel (offset_source issues_101) unique_keys_schema
                 now 1 ''1'' ''cloud'' ''P'' empty_store = None)
   \<and> (\<forall>fuel. map_option (\<lambda>r. (outcome r, fetch_calls r))
                 (syncIssuesToDatabase (Suc fuel) (offset_source issues_101) database_js_schema
                    now 1 ''1'' ''cloud'' ''P'' empty_store)
               = Some (Inl (SqliteError
                   ''ON CONFLICT clause does not match any PRIMARY KEY or UNIQUE constraint''), 1))"
proof (intro conjI allI)
  fix startAt
  show "getIssues search cloudId projectKey startAt m = getIssues search cloudId projectKey 0 m"
    by (simp add: getIssues_def)
next
  show "length (take maxResults (drop 0 issues_101)) = maxResults"
    by (simp add: issues_101_def maxResults_def)
  show "length (take maxResults (drop maxResults issues_101)) = 1"
    by (simp add: issues_101_def maxResults_def)
next
  fix fuel
  have g: "getIssues (offset_source issues_101) ''cloud'' ''P'' startAt maxResults
             = Inr (take maxResults issues_101)" for startAt
    by (simp add: getIssues_def offset_source_def)
  have l: "length (take maxResults issues_101) = maxResults"
    by (simp add: issues_101_def maxResults_def)
  show "syncIssuesToDatabase fuel (offset_source issues_101) unique_keys_schema
                 now 1 ''1'' ''cloud'' ''P'' empty_store = None"
    unfolding syncIssuesToDatabase_def
    by (rule sync_pages_same_page_forever [where page = "take maxResults issues_101", OF _ g l])
       (simp add: unique_keys_schema_def)
  obtain first others where p: "take maxResults issues_101 = first # others"
    using l by (cases "take maxResults issues_101") (simp_all add: maxResults_def)
  show "map_option (\<lambda>r. (outcome r, fetch_calls r))
                 (syncIssuesToDatabase (Suc fuel) (offset_source issues_101) database_js_schema
                    now 1 ''1'' ''cloud'' ''P'' empty_store)
               = Some (Inl (SqliteError
                   ''ON CONFLICT clause does not match any PRIMARY KEY or UNIQUE constraint''), 1)"
    by (simp add: syncIssuesToDatabase_def g p upsert_issue_def database_js_schema_def)
qed

end
